theory Spec2Isabelle
  imports Complex_Main
begin

section \<open>Data model\<close>

text \<open>
  Amounts, costs and rates are JavaScript numbers on the client and \<open>Float\<close> on the canister.
  They are modelled as exact reals: rounding and overflow of IEEE doubles are not modelled.
  The one place where the special values matter, the division in the progress percentage, is
  modelled with an explicit result type (see \<open>jsnum\<close> below). Timestamps and counters are
  integers (\<open>Date.now()\<close> milliseconds on the client, \<open>Int\<close> nanoseconds on the canister);
  the conversion between \<open>bigint\<close> and \<open>number\<close> done by \<open>serializeHouse\<close> and
  \<open>serializePayment\<close> is the identity on them, so one record type serves both sides.
\<close>

record House =
  house_id :: string
  house_name :: string
  totalCost :: real
  interestRate :: real
  loanTermYears :: int
  downPayment :: real
  createdAt :: int

record Payment =
  amount :: real
  date :: int
  payment_note :: string
  houseId :: string
  paymentMethod :: string

record UserProfile =
  profile_name :: string

datatype item_type =
  add_house | update_house | delete_house | add_payment | edit_payment | delete_payment
  | update_profile

text \<open>The \<open>data: any\<close> payload of a queue item, one constructor per shape the callers build.\<close>

datatype item_data =
  HouseData House
  | HouseIdData string
  | AddPaymentData real string string string int
  | EditPaymentData nat real string string string int
  | DeletePaymentData nat string
  | ProfileData UserProfile

record SyncQueueItem =
  item_id :: string
  type :: item_type
  data :: item_data
  timestamp :: int
  retryCount :: int

section \<open>The durable local store (\<open>OfflineStorageManager\<close>)\<close>

text \<open>
  \<open>localStorage\<close> holds JSON text under the keys that \<open>getUserKey\<close> derives for the active
  identity. Each key is modelled as a slot that records what a read of it meets: no item
  (\<open>getItem\<close> returns \<open>null\<close>), the empty text (falsy, so \<open>JSON.parse\<close> is skipped), a text
  that \<open>JSON.parse\<close> rejects, or a text that parses to a value. \<open>setItem\<close> may throw (quota
  exceeded): the store carries the outcomes of the coming writes, \<open>True\<close> for a write that
  throws; once the list is used up every write succeeds.
\<close>

datatype 'a slot = Absent | Empty_text | Malformed | Json 'a

datatype exn = SyntaxError | QuotaExceededError

record storage =
  houses_slot :: "House list slot"
  payments_slot :: "Payment list slot"
  profile_slot :: "UserProfile slot"
  sync_queue_slot :: "SyncQueueItem list slot"
  last_sync_slot :: "int option"
  write_faults :: "bool list"

text \<open>\<open>data ? JSON.parse(data) : dflt\<close>, where \<open>data\<close> is the result of \<open>getItem\<close>.\<close>

definition parseOr :: "'a \<Rightarrow> 'a slot \<Rightarrow> exn + 'a" where
  "parseOr dflt sl =
     (case sl of
        Absent \<Rightarrow> Inr dflt
      | Empty_text \<Rightarrow> Inr dflt
      | Malformed \<Rightarrow> Inl SyntaxError
      | Json v \<Rightarrow> Inr v)"

text \<open>\<open>localStorage.setItem\<close>: the update \<open>upd\<close> takes effect unless the write throws.\<close>

definition setItem :: "(storage \<Rightarrow> storage) \<Rightarrow> storage \<Rightarrow> (exn + unit) \<times> storage" where
  "setItem upd s =
     (case write_faults s of
        [] \<Rightarrow> (Inr (), upd s)
      | f # fs \<Rightarrow>
          (if f then (Inl QuotaExceededError, s\<lparr>write_faults := fs\<rparr>)
           else (Inr (), upd (s\<lparr>write_faults := fs\<rparr>))))"

text \<open>
  Each method below is a \<open>try\<close> block with a \<open>catch\<close> that logs and, for the getters, returns
  the default. The \<open>_try\<close> function is the body of the \<open>try\<close>; the method applies the
  \<open>catch\<close>.
\<close>

definition saveHouses_try :: "House list \<Rightarrow> storage \<Rightarrow> (exn + unit) \<times> storage" where
  "saveHouses_try houses = setItem (\<lambda>s. s\<lparr>houses_slot := Json houses\<rparr>)"

definition saveHouses :: "House list \<Rightarrow> storage \<Rightarrow> storage" where
  "saveHouses houses s =
     (case saveHouses_try houses s of (Inr _, s') \<Rightarrow> s' | (Inl _, s') \<Rightarrow> s')"

definition getHouses_try :: "storage \<Rightarrow> exn + House list" where
  "getHouses_try s = parseOr [] (houses_slot s)"

definition getHouses :: "storage \<Rightarrow> House list" where
  "getHouses s = (case getHouses_try s of Inr v \<Rightarrow> v | Inl _ \<Rightarrow> [])"

definition savePayments_try :: "Payment list \<Rightarrow> storage \<Rightarrow> (exn + unit) \<times> storage" where
  "savePayments_try ps = setItem (\<lambda>s. s\<lparr>payments_slot := Json ps\<rparr>)"

definition savePayments :: "Payment list \<Rightarrow> storage \<Rightarrow> storage" where
  "savePayments ps s =
     (case savePayments_try ps s of (Inr _, s') \<Rightarrow> s' | (Inl _, s') \<Rightarrow> s')"

definition getPayments_try :: "storage \<Rightarrow> exn + Payment list" where
  "getPayments_try s = parseOr [] (payments_slot s)"

definition getPayments :: "storage \<Rightarrow> Payment list" where
  "getPayments s = (case getPayments_try s of Inr v \<Rightarrow> v | Inl _ \<Rightarrow> [])"

text \<open>
  \<open>deleteHouse\<close>: two read-filter-write rounds. Its own \<open>try\<close>/\<open>catch\<close> has nothing left to
  catch, since the getters and savers it calls never throw.
\<close>

definition deleteHouse :: "string \<Rightarrow> storage \<Rightarrow> storage" where
  "deleteHouse hid s =
     (let houses = getHouses s;
          filteredHouses = filter (\<lambda>h. house_id h \<noteq> hid) houses;
          s1 = saveHouses filteredHouses s;
          payments = getPayments s1;
          filteredPayments = filter (\<lambda>p. houseId p \<noteq> hid) payments
      in savePayments filteredPayments s1)"

text \<open>
  \<open>Array.prototype.sort\<close> with the comparator \<open>(a, b) => b.date - a.date\<close> is a stable sort
  by descending date; \<open>sort_key\<close> is a stable insertion sort by ascending key, so the key is
  the negated date.
\<close>

definition sortByDateDesc :: "Payment list \<Rightarrow> Payment list" where
  "sortByDateDesc ps = sort_key (\<lambda>p. - date p) ps"

definition getPaymentsByHouse :: "string \<Rightarrow> storage \<Rightarrow> Payment list" where
  "getPaymentsByHouse hid s =
     (let allPayments = getPayments s
      in sortByDateDesc (filter (\<lambda>p. houseId p = hid) allPayments))"

definition saveProfile_try :: "UserProfile \<Rightarrow> storage \<Rightarrow> (exn + unit) \<times> storage" where
  "saveProfile_try profile = setItem (\<lambda>s. s\<lparr>profile_slot := Json profile\<rparr>)"

definition saveProfile :: "UserProfile \<Rightarrow> storage \<Rightarrow> storage" where
  "saveProfile profile s =
     (case saveProfile_try profile s of (Inr _, s') \<Rightarrow> s' | (Inl _, s') \<Rightarrow> s')"

definition getProfile_try :: "storage \<Rightarrow> exn + UserProfile option" where
  "getProfile_try s = parseOr None (map_slot Some (profile_slot s))"

definition getProfile :: "storage \<Rightarrow> UserProfile option" where
  "getProfile s = (case getProfile_try s of Inr v \<Rightarrow> v | Inl _ \<Rightarrow> None)"

subsection \<open>The mutation queue\<close>

definition getSyncQueue_try :: "storage \<Rightarrow> exn + SyncQueueItem list" where
  "getSyncQueue_try s = parseOr [] (sync_queue_slot s)"

definition getSyncQueue :: "storage \<Rightarrow> SyncQueueItem list" where
  "getSyncQueue s = (case getSyncQueue_try s of Inr v \<Rightarrow> v | Inl _ \<Rightarrow> [])"

definition saveSyncQueue_try :: "SyncQueueItem list \<Rightarrow> storage \<Rightarrow> (exn + unit) \<times> storage" where
  "saveSyncQueue_try queue = setItem (\<lambda>s. s\<lparr>sync_queue_slot := Json queue\<rparr>)"

definition saveSyncQueue :: "SyncQueueItem list \<Rightarrow> storage \<Rightarrow> storage" where
  "saveSyncQueue queue s =
     (case saveSyncQueue_try queue s of (Inr _, s') \<Rightarrow> s' | (Inl _, s') \<Rightarrow> s')"

text \<open>Decimal rendering of \<open>Date.now()\<close> inside the template string of the item id.\<close>

definition digits :: string where
  "digits = ''0123456789''"

function decimal :: "nat \<Rightarrow> string" where
  "decimal n = (if n < 10 then [digits ! n] else decimal (n div 10) @ [digits ! (n mod 10)])"
  by pat_completeness auto
termination
  by (relation "measure (\<lambda>n. n)") auto

declare decimal.simps [simp del]

definition showInt :: "int \<Rightarrow> string" where
  "showInt i = (if i < 0 then CHR ''-'' # decimal (nat (- i)) else decimal (nat i))"

text \<open>
  \<open>addToSyncQueue\<close>. The clock reading \<open>now\<close> and the text \<open>rnd\<close> that
  \<open>Math.random().toString(36).substr(2, 9)\<close> produces are inputs from the environment; the
  two calls of \<open>Date.now()\<close> (for the id and for the timestamp) are taken to give the same
  reading.
\<close>

definition newItem :: "int \<Rightarrow> string \<Rightarrow> item_type \<Rightarrow> item_data \<Rightarrow> SyncQueueItem" where
  "newItem now rnd ty d =
     \<lparr> item_id = showInt now @ ''_'' @ rnd, type = ty, data = d, timestamp = now,
       retryCount = 0 \<rparr>"

definition addToSyncQueue :: "int \<Rightarrow> string \<Rightarrow> item_type \<Rightarrow> item_data \<Rightarrow> storage \<Rightarrow> storage" where
  "addToSyncQueue now rnd ty d s =
     (let queue = getSyncQueue s
      in saveSyncQueue (queue @ [newItem now rnd ty d]) s)"

definition removeFromSyncQueue :: "string \<Rightarrow> storage \<Rightarrow> storage" where
  "removeFromSyncQueue itemId s =
     (let queue = getSyncQueue s;
          filtered = filter (\<lambda>item. item_id item \<noteq> itemId) queue
      in saveSyncQueue filtered s)"


definition incrementRetryCount :: "string \<Rightarrow> storage \<Rightarrow> storage" where
  "incrementRetryCount itemId s =
     (let queue = getSyncQueue s;
          updated = map (\<lambda>item. if item_id item = itemId
                                 then item\<lparr>retryCount := retryCount item + 1\<rparr> else item) queue
      in saveSyncQueue updated s)"

definition setLastSyncTime :: "int \<Rightarrow> storage \<Rightarrow> storage" where
  "setLastSyncTime t s =
     (case setItem (\<lambda>s. s\<lparr>last_sync_slot := Some t\<rparr>) s of
        (Inr _, s') \<Rightarrow> s' | (Inl _, s') \<Rightarrow> s')"


section \<open>Derived-view calculator\<close>

text \<open>
  The stored numbers (costs, rates, amounts) are finite and the sums, differences and products
  of the calculation are taken exactly, as reals. The last step, the guarded division of the
  progress percentage, is computed on \<open>jsnum\<close>: a number as the division and the multiplication
  of JavaScript and of Motoko's \<open>Float\<close> see it, that is a finite value, an infinity or \<open>NaN\<close>,
  with the IEEE 754 rules for these special values. So the guard
  \<open>totalLoanAmount === 0 ? 0 : ...\<close> is visible in the model (HOL's \<open>x / 0\<close> is \<open>0\<close>), and
  the step is defined for totals that are not finite as well. Signed zeros are not
  distinguished and the rounding of finite results is not modelled.
\<close>

datatype jsnum = Finite real | PosInfinity | NegInfinity | NaN

fun js_div :: "jsnum \<Rightarrow> jsnum \<Rightarrow> jsnum" where
  "js_div (Finite a) (Finite b) =
     (if b = 0 then (if a = 0 then NaN else if 0 < a then PosInfinity else NegInfinity)
      else Finite (a / b))"
| "js_div (Finite a) PosInfinity = Finite 0"
| "js_div (Finite a) NegInfinity = Finite 0"
| "js_div PosInfinity (Finite b) = (if 0 \<le> b then PosInfinity else NegInfinity)"
| "js_div NegInfinity (Finite b) = (if 0 \<le> b then NegInfinity else PosInfinity)"
| "js_div PosInfinity PosInfinity = NaN"
| "js_div PosInfinity NegInfinity = NaN"
| "js_div NegInfinity PosInfinity = NaN"
| "js_div NegInfinity NegInfinity = NaN"
| "js_div NaN y = NaN"
| "js_div x NaN = NaN"

fun js_times :: "jsnum \<Rightarrow> jsnum \<Rightarrow> jsnum" where
  "js_times (Finite a) (Finite b) = Finite (a * b)"
| "js_times PosInfinity (Finite b) =
     (if b = 0 then NaN else if 0 < b then PosInfinity else NegInfinity)"
| "js_times NegInfinity (Finite b) =
     (if b = 0 then NaN else if 0 < b then NegInfinity else PosInfinity)"
| "js_times (Finite a) PosInfinity =
     (if a = 0 then NaN else if 0 < a then PosInfinity else NegInfinity)"
| "js_times (Finite a) NegInfinity =
     (if a = 0 then NaN else if 0 < a then NegInfinity else PosInfinity)"
| "js_times PosInfinity PosInfinity = PosInfinity"
| "js_times PosInfinity NegInfinity = NegInfinity"
| "js_times NegInfinity PosInfinity = NegInfinity"
| "js_times NegInfinity NegInfinity = PosInfinity"
| "js_times NaN y = NaN"
| "js_times x NaN = NaN"

text \<open>The comparison \<open>x <= y\<close> of two such numbers: false as soon as one of them is \<open>NaN\<close>.\<close>

fun js_le :: "jsnum \<Rightarrow> jsnum \<Rightarrow> bool" where
  "js_le (Finite a) (Finite b) = (a \<le> b)"
| "js_le NaN y = False"
| "js_le x NaN = False"
| "js_le NegInfinity y = True"
| "js_le x PosInfinity = True"
| "js_le PosInfinity y = False"
| "js_le x NegInfinity = False"

text \<open>
  The expression \<open>totalLoanAmount === 0 ? 0 : (totalPaid / totalLoanAmount) * 100\<close> of
  \<open>calculateHouseProgress\<close>, which is also the
  \<open>if (totalCostWithInterest == 0.0) { 0.0 } else { (totalPaid / totalCostWithInterest) * 100.0 }\<close>
  of the canister's \<open>getHouseProgress\<close>.
\<close>

definition progressPercentageOf :: "jsnum \<Rightarrow> jsnum \<Rightarrow> jsnum" where
  "progressPercentageOf totalPaid totalLoanAmount =
     (if totalLoanAmount = Finite 0 then Finite 0
      else js_times (js_div totalPaid totalLoanAmount) (Finite 100))"

record HouseProgress =
  totalPaid :: real
  remainingBalance :: real
  progressPercentage :: jsnum
  interestAmount :: real
  hp_downPayment :: real
  hp_loanTermYears :: int
  totalLoanAmount :: real

text \<open>\<open>payments.reduce((sum, p) => sum + p.amount, 0)\<close>\<close>

definition sumAmounts :: "Payment list \<Rightarrow> real" where
  "sumAmounts ps = foldl (\<lambda>sum p. sum + amount p) 0 ps"

definition calculateHouseProgress :: "string \<Rightarrow> storage \<Rightarrow> HouseProgress option" where
  "calculateHouseProgress hid s =
     (case find (\<lambda>h. house_id h = hid) (getHouses s) of
        None \<Rightarrow> None
      | Some house \<Rightarrow>
          let payments = getPaymentsByHouse hid s;
              totalPaid = sumAmounts payments;
              loanAmount = totalCost house - downPayment house;
              interestAmount = loanAmount * (interestRate house / 100);
              totalLoanAmount = loanAmount + interestAmount;
              remainingBalance = totalLoanAmount - totalPaid;
              progressPercentage =
                progressPercentageOf (Finite totalPaid) (Finite totalLoanAmount)
          in Some \<lparr> totalPaid = totalPaid,
                    remainingBalance = remainingBalance,
                    progressPercentage = progressPercentage,
                    interestAmount = interestAmount,
                    hp_downPayment = downPayment house,
                    hp_loanTermYears = loanTermYears house,
                    totalLoanAmount = totalLoanAmount \<rparr>)"

section \<open>The canister (\<open>main.mo\<close>)\<close>

text \<open>
  The state of one caller: the \<open>Account\<close> that \<open>getAccountHelper\<close> returns for it (the default
  account when the caller has none yet). A trap rolls the message back, so a function that
  traps returns no new state. \<open>AccessControl.hasPermission\<close> belongs to a module outside the
  sources at hand; its answer for the caller is the parameter \<open>permitted\<close>.
\<close>

datatype trap = Trap string

record Account =
  userProfile :: UserProfile
  houses :: "string \<rightharpoonup> House"
  payments :: "Payment list"

definition defaultAccount :: Account where
  "defaultAccount = \<lparr> userProfile = \<lparr> profile_name = [] \<rparr>, houses = Map.empty, payments = [] \<rparr>"

definition canister_saveCallerUserProfile :: "UserProfile \<Rightarrow> bool \<Rightarrow> Account \<Rightarrow> trap + Account" where
  "canister_saveCallerUserProfile profile permitted account =
     (if \<not> permitted then Inl (Trap ''Unauthorized: Only users can save profiles'')
      else Inr (account\<lparr>userProfile := profile\<rparr>))"

definition canister_addOrUpdateHouse :: "House \<Rightarrow> bool \<Rightarrow> Account \<Rightarrow> trap + Account" where
  "canister_addOrUpdateHouse house permitted account =
     (if \<not> permitted then Inl (Trap ''Unauthorized: Only users can manage houses'')
      else Inr (account\<lparr>houses := (houses account)(house_id house \<mapsto> house)\<rparr>))"

definition canister_deleteHouse :: "string \<Rightarrow> bool \<Rightarrow> Account \<Rightarrow> trap + Account" where
  "canister_deleteHouse hid permitted account =
     (if \<not> permitted then Inl (Trap ''Unauthorized: Only users can delete houses'')
      else
        case houses account hid of
          None \<Rightarrow> Inl (Trap ''House not found or does not belong to you'')
        | Some _ \<Rightarrow>
            let userHouseMap = (houses account)(hid := None);
                filteredPayments = filter (\<lambda>payment. houseId payment \<noteq> hid) (payments account)
            in Inr (account\<lparr>houses := userHouseMap, payments := filteredPayments\<rparr>))"

text \<open>\<open>timeNow\<close> is the canister's \<open>Time.now()\<close>.\<close>

definition canister_addPayment ::
  "real \<Rightarrow> string \<Rightarrow> string \<Rightarrow> string \<Rightarrow> int option \<Rightarrow> int \<Rightarrow> bool \<Rightarrow> Account \<Rightarrow> trap + Account" where
  "canister_addPayment amt nt hid method maybeDate timeNow permitted account =
     (if \<not> permitted then Inl (Trap ''Unauthorized: Only users can add payments'')
      else
        let houseExists = (case houses account hid of Some _ \<Rightarrow> True | None \<Rightarrow> False)
        in if \<not> houseExists
           then Inl (Trap ''Unauthorized: House not found or does not belong to you'')
           else
             let payment = \<lparr> amount = amt,
                             date = (case maybeDate of Some d \<Rightarrow> d | None \<Rightarrow> timeNow),
                             payment_note = nt, houseId = hid, paymentMethod = method \<rparr>
             in Inr (account\<lparr>payments := payments account @ [payment]\<rparr>))"

text \<open>\<open>Array.tabulate(n, f)\<close>\<close>

definition tabulate :: "nat \<Rightarrow> (nat \<Rightarrow> 'a) \<Rightarrow> 'a list" where
  "tabulate n f = map f [0..<n]"

definition canister_editPayment ::
  "nat \<Rightarrow> real \<Rightarrow> string \<Rightarrow> string \<Rightarrow> string \<Rightarrow> int \<Rightarrow> bool \<Rightarrow> Account \<Rightarrow> trap + Account" where
  "canister_editPayment paymentIndex amt nt hid method dt permitted account =
     (if \<not> permitted then Inl (Trap ''Unauthorized: Only users can edit payments'')
      else
        let houseExists = (case houses account hid of Some _ \<Rightarrow> True | None \<Rightarrow> False)
        in if \<not> houseExists then Inl (Trap ''House not found or does not belong to you'')
           else if paymentIndex \<ge> length (payments account)
           then Inl (Trap ''Payment not found/does not belong to you'')
           else
             let allPaymentsArray = payments account;
                 newPayment = \<lparr> amount = amt, date = dt, payment_note = nt, houseId = hid,
                                paymentMethod = method \<rparr>;
                 updatedPaymentsArray =
                   tabulate (length allPaymentsArray)
                     (\<lambda>i. if i = paymentIndex then newPayment else allPaymentsArray ! i)
             in Inr (account\<lparr>payments := updatedPaymentsArray\<rparr>))"

definition canister_deletePayment :: "nat \<Rightarrow> bool \<Rightarrow> Account \<Rightarrow> trap + Account" where
  "canister_deletePayment paymentIndex permitted account =
     (if \<not> permitted then Inl (Trap ''Unauthorized: Only users can delete payments'')
      else if paymentIndex \<ge> length (payments account)
      then Inl (Trap ''Payment not found/does not belong to you'')
      else
        let allPaymentsArray = payments account;
            paymentToDelete = allPaymentsArray ! paymentIndex;
            houseExists = (case houses account (houseId paymentToDelete) of
                             Some _ \<Rightarrow> True | None \<Rightarrow> False)
        in if \<not> houseExists
           then Inl (Trap ''Unauthorized: Payment's associated house not found or does not belong to you'')
           else
             let filteredArray =
                   (if length allPaymentsArray = 0 then []
                    else tabulate (length allPaymentsArray - 1)
                           (\<lambda>i. if i < paymentIndex then allPaymentsArray ! i
                                else allPaymentsArray ! (i + 1)))
             in Inr (account\<lparr>payments := filteredArray\<rparr>))"

text \<open>
  \<open>payments.foldLeft(0.0, func(acc, payment) { if (payment.houseId == houseId) ... })\<close>
\<close>

definition paidForHouse :: "string \<Rightarrow> Payment list \<Rightarrow> real" where
  "paidForHouse hid ps =
     foldl (\<lambda>acc payment. if houseId payment = hid then acc + amount payment else acc) 0 ps"

definition canister_getHouseProgress :: "string \<Rightarrow> bool \<Rightarrow> Account \<Rightarrow> trap + HouseProgress" where
  "canister_getHouseProgress hid permitted account =
     (if \<not> permitted then Inl (Trap ''Unauthorized: Only users can view progress'')
      else
        case houses account hid of
          None \<Rightarrow> Inl (Trap ''House not found'')
        | Some house \<Rightarrow>
            let totalPaid = paidForHouse hid (payments account);
                loanAmount = totalCost house - downPayment house;
                interestAmount = loanAmount * (interestRate house / 100);
                totalCostWithInterest = loanAmount + interestAmount;
                remainingBalance = totalCostWithInterest - totalPaid;
                progressPercentage =
                  progressPercentageOf (Finite totalPaid) (Finite totalCostWithInterest)
            in Inr \<lparr> totalPaid = totalPaid,
                      remainingBalance = remainingBalance,
                      progressPercentage = progressPercentage,
                      interestAmount = interestAmount,
                      hp_downPayment = downPayment house,
                      hp_loanTermYears = loanTermYears house,
                      totalLoanAmount = totalCostWithInterest \<rparr>)"

text \<open>
  \<open>getPaymentHistoryByHouse\<close>: filter by house, then \<open>sort()\<close> with \<open>Payment.compare\<close>, which
  compares \<open>b.date\<close> with \<open>a.date\<close> (descending date).
\<close>

definition canister_getPaymentHistoryByHouse :: "string \<Rightarrow> bool \<Rightarrow> Account \<Rightarrow> trap + Payment list" where
  "canister_getPaymentHistoryByHouse hid permitted account =
     (if \<not> permitted then Inl (Trap ''Unauthorized: Only users can view payment history'')
      else
        let houseExists = (case houses account hid of Some _ \<Rightarrow> True | None \<Rightarrow> False)
        in if \<not> houseExists
           then Inl (Trap ''Unauthorized: House not found or does not belong to you'')
           else Inr (sortByDateDesc (filter (\<lambda>payment. houseId payment = hid) (payments account))))"

section \<open>Calls from the client to the canister\<close>

text \<open>
  The remote side as a client call meets it: the caller's account, the answer of the access
  control for the caller, the canister clock, and the outcomes of the coming calls at the
  transport level (\<open>True\<close> for a call that is rejected before it reaches the canister; once
  the list is used up every call reaches it). A call that traps leaves the account unchanged
  and rejects the promise.
\<close>

record remote =
  account :: Account
  permitted :: bool
  canister_time :: int
  net_faults :: "bool list"

datatype call_error = Transport | Rejected trap | ClientError

definition run_on_canister :: "(bool \<Rightarrow> Account \<Rightarrow> trap + Account) \<Rightarrow> remote \<Rightarrow> call_error option \<times> remote" where
  "run_on_canister f r =
     (case f (permitted r) (account r) of
        Inl t \<Rightarrow> (Some (Rejected t), r)
      | Inr a \<Rightarrow> (None, r\<lparr>account := a\<rparr>))"

definition actorCall :: "(bool \<Rightarrow> Account \<Rightarrow> trap + Account) \<Rightarrow> remote \<Rightarrow> call_error option \<times> remote" where
  "actorCall f r =
     (case net_faults r of
        [] \<Rightarrow> run_on_canister f r
      | x # xs \<Rightarrow>
          (if x then (Some Transport, r\<lparr>net_faults := xs\<rparr>)
           else run_on_canister f (r\<lparr>net_faults := xs\<rparr>)))"

text \<open>
  \<open>BigInt(paymentDate * 1000000)\<close>. The timestamp is a \<open>getTime()\<close> or \<open>Date.now()\<close> value, an
  integer that a double holds exactly, and so is \<open>1000000\<close>; their product is a double
  multiplication, whose result is the exact product rounded to the nearest double (53
  significant bits, a tie going to the even significand). From \<open>2 ^ 53\<close> on the result is
  therefore not always the exact product. A product that rounds beyond the largest double is
  \<open>Infinity\<close>, on which \<open>BigInt\<close> throws a \<open>RangeError\<close>: the value \<open>None\<close>.
\<close>

function bitLength :: "nat \<Rightarrow> nat" where
  "bitLength n = (if n = 0 then 0 else Suc (bitLength (n div 2)))"
  by pat_completeness auto
termination
  by (relation "measure (\<lambda>n. n)") auto

declare bitLength.simps [simp del]

definition roundToDouble :: "int \<Rightarrow> int option" where
  "roundToDouble x =
     (let a = nat \<bar>x\<bar>;
          bits = bitLength a;
          ulp = (if bits \<le> 53 then 1 else 2 ^ (bits - 53));
          m = a div ulp;
          rest = a mod ulp;
          rounded = (if 2 * rest < ulp then m
                     else if ulp < 2 * rest then m + 1
                     else if even m then m else m + 1) * ulp
      in if rounded \<ge> 2 ^ 1024 then None
         else Some (if x < 0 then - int rounded else int rounded))"

definition bigIntOfProduct :: "int \<Rightarrow> int \<Rightarrow> int option" where
  "bigIntOfProduct x y = roundToDouble (x * y)"

text \<open>
  A call whose arguments are built inside the \<open>try\<close> block of the caller: when building them
  throws, no call is sent and the \<open>catch\<close> sees a client-side error.
\<close>

definition tryCall ::
  "(bool \<Rightarrow> Account \<Rightarrow> trap + Account) option \<Rightarrow> remote \<Rightarrow> call_error option \<times> remote" where
  "tryCall call r =
     (case call of
        None \<Rightarrow> (Some ClientError, r)
      | Some f \<Rightarrow> actorCall f r)"

section \<open>Optimistic mutations (\<open>useQueries\<close>)\<close>

text \<open>
  What a mutation function sees of its environment: the connectivity flag, whether
  \<open>useActor\<close> delivered an actor, the \<open>isFetching\<close> and \<open>isRetrying\<close> flags, the clock and
  the random text used for a new queue item. A mutation function either returns
  \<open>{ queued, reason }\<close> or throws the error that tells the user the change was kept locally.
  Only the \<open>mutationFn\<close> of each hook is modelled, as one step: nothing else runs between
  its local write and the end of its remote call. The payment index is a natural number (the
  position of a row in the displayed list).
\<close>

record client_env =
  isOnline :: bool
  hasActor :: bool
  actorFetching :: bool
  actorRetrying :: bool
  clock :: int
  random36 :: string

datatype queued_reason = offline | connecting

datatype mutation_outcome = Returned "queued_reason option" | Thrown call_error

text \<open>\<open>Array.prototype.findIndex\<close>: the index of the first match, \<open>-1\<close> when there is none.\<close>

fun findIndex :: "('a \<Rightarrow> bool) \<Rightarrow> 'a list \<Rightarrow> int" where
  "findIndex P [] = - 1"
| "findIndex P (x # xs) =
     (if P x then 0 else (let r = findIndex P xs in if r < 0 then - 1 else r + 1))"

text \<open>\<open>payments.splice(globalIndex, 1)\<close> for an index inside the array.\<close>

definition spliceOne :: "nat \<Rightarrow> 'a list \<Rightarrow> 'a list" where
  "spliceOne i xs = take i xs @ drop (Suc i) xs"

text \<open>
  The part shared by the four mutation functions below: queue when offline or while the actor
  is not ready, otherwise run the \<open>try\<close> block (build the arguments, call the canister) and
  queue if it throws. \<open>call\<close> is \<open>None\<close> when building the arguments throws.
\<close>

definition syncOrQueue ::
  "client_env \<Rightarrow> item_type \<Rightarrow> item_data \<Rightarrow> (bool \<Rightarrow> Account \<Rightarrow> trap + Account) option
     \<Rightarrow> storage \<times> remote \<Rightarrow> storage \<times> remote \<times> mutation_outcome" where
  "syncOrQueue env ty d call sr =
     (let s = fst sr; r = snd sr
      in if \<not> isOnline env
         then (addToSyncQueue (clock env) (random36 env) ty d s, r, Returned (Some offline))
         else if \<not> hasActor env \<or> actorFetching env \<or> actorRetrying env
         then (addToSyncQueue (clock env) (random36 env) ty d s, r, Returned (Some connecting))
         else
           (case tryCall call r of
              (None, r') \<Rightarrow> (s, r', Returned None)
            | (Some e, r') \<Rightarrow>
                (addToSyncQueue (clock env) (random36 env) ty d s, r', Thrown e)))"

definition useDeleteHouse ::
  "client_env \<Rightarrow> string \<Rightarrow> storage \<times> remote \<Rightarrow> storage \<times> remote \<times> mutation_outcome" where
  "useDeleteHouse env hid sr =
     (let s1 = deleteHouse hid (fst sr)
      in syncOrQueue env delete_house (HouseIdData hid) (Some (canister_deleteHouse hid))
           (s1, snd sr))"

text \<open>\<open>date\<close> is the optional date picked in the dialog, already as \<open>getTime()\<close>.\<close>

definition useAddPayment ::
  "client_env \<Rightarrow> real \<Rightarrow> string \<Rightarrow> string \<Rightarrow> string \<Rightarrow> int option
     \<Rightarrow> storage \<times> remote \<Rightarrow> storage \<times> remote \<times> mutation_outcome" where
  "useAddPayment env amt nt hid method dt sr =
     (let paymentDate = (case dt of Some d \<Rightarrow> d | None \<Rightarrow> clock env);
          newPayment = \<lparr> amount = amt, date = paymentDate, payment_note = nt, houseId = hid,
                         paymentMethod = method \<rparr>;
          payments = getPayments (fst sr);
          s1 = savePayments (payments @ [newPayment]) (fst sr);
          dateNanos = bigIntOfProduct paymentDate 1000000
      in syncOrQueue env add_payment (AddPaymentData amt nt hid method paymentDate)
           (map_option
              (\<lambda>nanos perm acc. canister_addPayment amt nt hid method (Some nanos)
                                 (canister_time (snd sr)) perm acc)
              dateNanos)
           (s1, snd sr))"

definition useEditPayment ::
  "client_env \<Rightarrow> nat \<Rightarrow> real \<Rightarrow> string \<Rightarrow> string \<Rightarrow> string \<Rightarrow> int
     \<Rightarrow> storage \<times> remote \<Rightarrow> storage \<times> remote \<times> mutation_outcome" where
  "useEditPayment env paymentIndex amt nt hid method paymentDate sr =
     (let s = fst sr;
          payments = getPayments s;
          housePayments = sortByDateDesc (filter (\<lambda>p. houseId p = hid) payments);
          s1 = (if paymentIndex < length housePayments then
                  let paymentToUpdate = housePayments ! paymentIndex;
                      globalIndex = findIndex (\<lambda>p. houseId p = houseId paymentToUpdate
                                                  \<and> date p = date paymentToUpdate
                                                  \<and> amount p = amount paymentToUpdate) payments
                  in if globalIndex \<ge> 0
                     then savePayments
                            (payments[nat globalIndex :=
                               \<lparr> amount = amt, date = paymentDate, payment_note = nt,
                                 houseId = hid, paymentMethod = method \<rparr>]) s
                     else s
                else s);
          dateNanos = bigIntOfProduct paymentDate 1000000
      in syncOrQueue env edit_payment (EditPaymentData paymentIndex amt nt hid method paymentDate)
           (map_option (canister_editPayment paymentIndex amt nt hid method) dateNanos)
           (s1, snd sr))"

definition useDeletePayment ::
  "client_env \<Rightarrow> nat \<Rightarrow> string \<Rightarrow> storage \<times> remote \<Rightarrow> storage \<times> remote \<times> mutation_outcome" where
  "useDeletePayment env paymentIndex hid sr =
     (let s = fst sr;
          payments = getPayments s;
          housePayments = sortByDateDesc (filter (\<lambda>p. houseId p = hid) payments);
          s1 = (if paymentIndex < length housePayments then
                  let paymentToDelete = housePayments ! paymentIndex;
                      globalIndex = findIndex (\<lambda>p. houseId p = houseId paymentToDelete
                                                  \<and> date p = date paymentToDelete
                                                  \<and> amount p = amount paymentToDelete) payments
                  in if globalIndex \<ge> 0
                     then savePayments (spliceOne (nat globalIndex) payments) s
                     else s
                else s)
      in syncOrQueue env delete_payment (DeletePaymentData paymentIndex hid)
           (Some (canister_deletePayment paymentIndex))
           (s1, snd sr))"

section \<open>Sync orchestrator (\<open>useBackgroundSync\<close>)\<close>

text \<open>
  \<open>processSyncItem\<close> dispatches on the item type and reads the payload fields the call needs.
  A payload that lacks one of them makes the client throw before any call is sent
  (\<open>BigInt(undefined)\<close>, or the encoding of an undefined argument). \<open>syncAddPayment\<close> is the
  branch \<open>case 'add_payment'\<close>: \<open>date ? BigInt(date * 1000000) : null\<close>, then the call.
\<close>

definition syncAddPayment ::
  "real \<Rightarrow> string \<Rightarrow> string \<Rightarrow> string \<Rightarrow> int \<Rightarrow> remote \<Rightarrow> call_error option \<times> remote" where
  "syncAddPayment amt nt hid method dt r =
     (if dt \<noteq> 0
      then tryCall (map_option
                      (\<lambda>nanos. canister_addPayment amt nt hid method (Some nanos) (canister_time r))
                      (bigIntOfProduct dt 1000000)) r
      else actorCall (canister_addPayment amt nt hid method None (canister_time r)) r)"

definition processSyncItem :: "bool \<Rightarrow> SyncQueueItem \<Rightarrow> remote \<Rightarrow> call_error option \<times> remote" where
  "processSyncItem actorPresent item r =
     (if \<not> actorPresent then (Some ClientError, r)
      else
        case type item of
          add_house \<Rightarrow>
            (case data item of
               HouseData h \<Rightarrow> actorCall (canister_addOrUpdateHouse h) r
             | _ \<Rightarrow> (Some ClientError, r))
        | update_house \<Rightarrow>
            (case data item of
               HouseData h \<Rightarrow> actorCall (canister_addOrUpdateHouse h) r
             | _ \<Rightarrow> (Some ClientError, r))
        | delete_house \<Rightarrow>
            (case data item of
               HouseIdData hid \<Rightarrow> actorCall (canister_deleteHouse hid) r
             | AddPaymentData amt nt hid method dt \<Rightarrow> actorCall (canister_deleteHouse hid) r
             | EditPaymentData i amt nt hid method dt \<Rightarrow> actorCall (canister_deleteHouse hid) r
             | DeletePaymentData i hid \<Rightarrow> actorCall (canister_deleteHouse hid) r
             | _ \<Rightarrow> (Some ClientError, r))
        | add_payment \<Rightarrow>
            (case data item of
               AddPaymentData amt nt hid method dt \<Rightarrow> syncAddPayment amt nt hid method dt r
             | EditPaymentData i amt nt hid method dt \<Rightarrow> syncAddPayment amt nt hid method dt r
             | _ \<Rightarrow> (Some ClientError, r))
        | edit_payment \<Rightarrow>
            (case data item of
               EditPaymentData i amt nt hid method dt \<Rightarrow>
                 tryCall (map_option (canister_editPayment i amt nt hid method)
                            (bigIntOfProduct dt 1000000)) r
             | _ \<Rightarrow> (Some ClientError, r))
        | delete_payment \<Rightarrow>
            (case data item of
               DeletePaymentData i hid \<Rightarrow> actorCall (canister_deletePayment i) r
             | EditPaymentData i amt nt hid method dt \<Rightarrow> actorCall (canister_deletePayment i) r
             | _ \<Rightarrow> (Some ClientError, r))
        | update_profile \<Rightarrow>
            (case data item of
               ProfileData p \<Rightarrow> actorCall (canister_saveCallerUserProfile p) r
             | HouseData h \<Rightarrow>
                 actorCall (canister_saveCallerUserProfile \<lparr> profile_name = house_name h \<rparr>) r
             | _ \<Rightarrow> (Some ClientError, r)))"

datatype toast =
  SyncingPending nat
  | FailedAfter3Attempts item_type
  | SyncedChanges nat
  | FailedWillRetry nat

record drain_state =
  store :: storage
  server :: remote
  successCount :: nat
  failCount :: nat
  toasts :: "toast list"

text \<open>
  One turn of the \<open>for (const item of queue)\<close> loop. \<open>item\<close> is the element of the array
  read before the loop; the calls on \<open>offlineStorage\<close> re-read the stored queue.
\<close>

definition drainItem :: "bool \<Rightarrow> SyncQueueItem \<Rightarrow> drain_state \<Rightarrow> drain_state" where
  "drainItem actorPresent item st =
     (case processSyncItem actorPresent item (server st) of
        (None, r') \<Rightarrow>
          st\<lparr> server := r',
              store := removeFromSyncQueue (item_id item) (store st),
              successCount := successCount st + 1 \<rparr>
      | (Some e, r') \<Rightarrow>
          let s1 = incrementRetryCount (item_id item) (store st)
          in if retryCount item \<ge> 3
             then st\<lparr> server := r',
                      store := removeFromSyncQueue (item_id item) s1,
                      failCount := failCount st + 1,
                      toasts := toasts st @ [FailedAfter3Attempts (type item)] \<rparr>
             else st\<lparr> server := r', store := s1, failCount := failCount st + 1 \<rparr>)"

fun drainLoop :: "bool \<Rightarrow> SyncQueueItem list \<Rightarrow> drain_state \<Rightarrow> drain_state" where
  "drainLoop actorPresent [] st = st"
| "drainLoop actorPresent (item # rest) st = drainLoop actorPresent rest (drainItem actorPresent item st)"

record sync_refs =
  syncInProgress :: bool
  lastSyncAttempt :: int

text \<open>
  \<open>processSyncQueue\<close>. \<open>enabled\<close> is the hook's parameter, \<open>clock env\<close> the clock at the rate
  limit check and \<open>endTime\<close> the clock when the pass records the time of the last sync. The
  invalidation of the query caches is outside the state modelled here.
\<close>

definition processSyncQueue ::
  "bool \<Rightarrow> client_env \<Rightarrow> int \<Rightarrow> sync_refs \<times> storage \<times> remote
     \<Rightarrow> sync_refs \<times> storage \<times> remote \<times> toast list" where
  "processSyncQueue enabled env endTime x =
     (let refs = fst x; s = fst (snd x); r = snd (snd x)
      in if \<not> enabled \<or> \<not> hasActor env \<or> actorFetching env \<or> actorRetrying env
            \<or> \<not> isOnline env \<or> syncInProgress refs
         then (refs, s, r, [])
         else
           let queue = getSyncQueue s
           in if length queue = 0 then (refs, s, r, [])
              else if clock env - lastSyncAttempt refs < 2000 then (refs, s, r, [])
              else
                let st = drainLoop (hasActor env) queue
                           \<lparr> store = s, server = r, successCount = 0, failCount = 0,
                             toasts = [SyncingPending (length queue)] \<rparr>;
                    refs' = \<lparr> syncInProgress = False, lastSyncAttempt = clock env \<rparr>;
                    s1 = (if successCount st > 0 then setLastSyncTime endTime (store st)
                          else store st);
                    t1 = (if successCount st > 0 then [SyncedChanges (successCount st)] else []);
                    t2 = (if failCount st > 0 \<and> successCount st = 0
                          then [FailedWillRetry (failCount st)] else [])
                in (refs', s1, server st, toasts st @ t1 @ t2))"

section \<open>Remote session manager: the retry monitor of \<open>useActorWithRetry\<close>\<close>










section \<open>Vocabulary of the properties\<close>

text \<open>
  The next \<open>n\<close> writes to the local store take effect: none of the first \<open>n\<close> outcomes the
  store holds for the coming writes is a throw.
\<close>

definition writesTakeEffect :: "nat \<Rightarrow> storage \<Rightarrow> bool" where
  "writesTakeEffect n s = (True \<notin> set (take n (write_faults s)))"

text \<open>
  The no-orphans invariant, on the local store as the getters read it and on an account of the
  canister: every payment refers to a house that is present.
\<close>

definition noOrphans :: "storage \<Rightarrow> bool" where
  "noOrphans s = list_all (\<lambda>p. houseId p \<in> set (map house_id (getHouses s))) (getPayments s)"

definition accountNoOrphans :: "Account \<Rightarrow> bool" where
  "accountNoOrphans a = list_all (\<lambda>p. houses a (houseId p) \<noteq> None) (payments a)"




text \<open>
  For one drain pass over the array \<open>q\<close>: the outcome of each call (\<open>True\<close> for a call that
  resolved), threading the remote side through the calls in order, and the items the pass
  leaves in the queue according to the loop as written: those whose call failed while the
  \<open>retryCount\<close> read before the pass was below 3, each with one more retry.
\<close>

fun callOutcomes :: "bool \<Rightarrow> SyncQueueItem list \<Rightarrow> remote \<Rightarrow> bool list" where
  "callOutcomes a [] r = []"
| "callOutcomes a (item # rest) r =
     (case processSyncItem a item r of (e, r') \<Rightarrow> (e = None) # callOutcomes a rest r')"

definition keptAfterPass :: "SyncQueueItem list \<Rightarrow> bool list \<Rightarrow> SyncQueueItem list" where
  "keptAfterPass q oks =
     map (\<lambda>(item, ok). item\<lparr>retryCount := retryCount item + 1\<rparr>)
       (filter (\<lambda>(item, ok). \<not> ok \<and> retryCount item < 3) (zip q oks))"

text \<open>The contents of all keys of the store, without the outcomes of the coming writes.\<close>

definition slotsOf ::
  "storage \<Rightarrow> House list slot \<times> Payment list slot \<times> UserProfile slot \<times> SyncQueueItem list slot \<times> int option" where
  "slotsOf s = (houses_slot s, payments_slot s, profile_slot s, sync_queue_slot s, last_sync_slot s)"

section \<open>Scenarios\<close>

text \<open>
  Concrete stores, accounts and environments on which the functions above are evaluated.
  The house of the progress scenarios: cost 300000, down payment 60000, rate 4.
\<close>

definition scenarioHouse :: House where
  "scenarioHouse = \<lparr> house_id = ''h1'', house_name = ''Home'', totalCost = 300000, interestRate = 4,
     loanTermYears = 30, downPayment = 60000, createdAt = 0 \<rparr>"

definition scenarioStore :: storage where
  "scenarioStore = \<lparr> houses_slot = Json [scenarioHouse], payments_slot = Absent,
     profile_slot = Absent, sync_queue_slot = Absent, last_sync_slot = None, write_faults = [] \<rparr>"

definition scenarioPayment :: Payment where
  "scenarioPayment = \<lparr> amount = 24960, date = 1700000000000, payment_note = ''first'',
     houseId = ''h1'', paymentMethod = ''bank'' \<rparr>"

definition scenarioPaidStore :: storage where
  "scenarioPaidStore = scenarioStore\<lparr>payments_slot := Json [scenarioPayment]\<rparr>"

definition offlineEnv :: client_env where
  "offlineEnv = \<lparr> isOnline = False, hasActor = False, actorFetching = False, actorRetrying = False,
     clock = 1700000000000, random36 = ''k3j9x0a1b'' \<rparr>"

definition onlineEnv :: client_env where
  "onlineEnv = \<lparr> isOnline = True, hasActor = True, actorFetching = False, actorRetrying = False,
     clock = 1700000000000, random36 = ''k3j9x0a1b'' \<rparr>"

text \<open>A house of cost 100 without interest and one payment of amount -50.\<close>

definition refundHouse :: House where
  "refundHouse = \<lparr> house_id = ''h1'', house_name = ''Home'', totalCost = 100, interestRate = 0,
     loanTermYears = 30, downPayment = 0, createdAt = 0 \<rparr>"

definition refundPayment :: Payment where
  "refundPayment = \<lparr> amount = - 50, date = 1, payment_note = ''refund'', houseId = ''h1'',
     paymentMethod = ''cash'' \<rparr>"

definition refundStore :: storage where
  "refundStore = \<lparr> houses_slot = Json [refundHouse], payments_slot = Json [refundPayment],
     profile_slot = Absent, sync_queue_slot = Absent, last_sync_slot = None, write_faults = [] \<rparr>"

text \<open>A store in which two keys hold text that does not parse and the next write throws.\<close>

definition brokenStore :: storage where
  "brokenStore = \<lparr> houses_slot = Malformed, payments_slot = Absent, profile_slot = Malformed,
     sync_queue_slot = Empty_text, last_sync_slot = None, write_faults = [True] \<rparr>"

text \<open>
  Two houses; payments of \<open>h1\<close> dated 1000 and 2000 with a payment of \<open>h2\<close> stored between
  them. The account holds the same houses and payments.
\<close>

definition secondHouse :: House where
  "secondHouse = \<lparr> house_id = ''h2'', house_name = ''Cabin'', totalCost = 1000, interestRate = 0,
     loanTermYears = 10, downPayment = 0, createdAt = 0 \<rparr>"

definition payA :: Payment where
  "payA = \<lparr> amount = 10, date = 1000, payment_note = ''first'', houseId = ''h1'', paymentMethod = ''bank'' \<rparr>"

definition payB :: Payment where
  "payB = \<lparr> amount = 20, date = 2000, payment_note = ''second'', houseId = ''h1'', paymentMethod = ''bank'' \<rparr>"

definition payC :: Payment where
  "payC = \<lparr> amount = 5, date = 1500, payment_note = ''other'', houseId = ''h2'', paymentMethod = ''cash'' \<rparr>"

definition ledgerStore :: storage where
  "ledgerStore = \<lparr> houses_slot = Json [scenarioHouse, secondHouse], payments_slot = Json [payA, payC, payB],
     profile_slot = Absent, sync_queue_slot = Absent, last_sync_slot = None, write_faults = [] \<rparr>"

definition ledgerAccount :: Account where
  "ledgerAccount = \<lparr> userProfile = \<lparr> profile_name = ''Ann'' \<rparr>,
     houses = [''h1'' \<mapsto> scenarioHouse, ''h2'' \<mapsto> secondHouse],
     payments = [payA, payC, payB] \<rparr>"

text \<open>
  A history on both sides: starting with house \<open>h1\<close> and no payments, two payments are added
  online with a ready actor, dated 1000 ms and 2000 ms, in that order.
\<close>

definition pairOf :: "storage \<times> remote \<times> mutation_outcome \<Rightarrow> storage \<times> remote" where
  "pairOf x = (fst x, fst (snd x))"

definition emptyStore :: storage where
  "emptyStore = \<lparr> houses_slot = Json [scenarioHouse], payments_slot = Absent,
     profile_slot = Absent, sync_queue_slot = Absent, last_sync_slot = None, write_faults = [] \<rparr>"

definition startRemote :: remote where
  "startRemote = \<lparr> account = \<lparr> userProfile = \<lparr> profile_name = ''Ann'' \<rparr>,
                           houses = [''h1'' \<mapsto> scenarioHouse], payments = [] \<rparr>,
     permitted = True, canister_time = 0, net_faults = [] \<rparr>"

definition afterTwoPayments :: "storage \<times> remote" where
  "afterTwoPayments =
     pairOf (useAddPayment onlineEnv 20 ''second'' ''h1'' ''bank'' (Some 2000)
       (pairOf (useAddPayment onlineEnv 10 ''first'' ''h1'' ''bank'' (Some 1000)
          (emptyStore, startRemote))))"

text \<open>A queue of three items with different ids, and the state of a drain pass over it.\<close>

definition queuedA :: SyncQueueItem where
  "queuedA = \<lparr> item_id = ''1700000000000_aaaaaaaaa'', type = add_house,
     data = HouseData scenarioHouse, timestamp = 1700000000000, retryCount = 0 \<rparr>"

definition queuedB :: SyncQueueItem where
  "queuedB = \<lparr> item_id = ''1700000000001_bbbbbbbbb'', type = update_profile,
     data = ProfileData \<lparr> profile_name = ''Ann B'' \<rparr>, timestamp = 1700000000001, retryCount = 1 \<rparr>"

definition queuedC :: SyncQueueItem where
  "queuedC = \<lparr> item_id = ''1700000000002_ccccccccc'', type = delete_house,
     data = HouseIdData ''h9'', timestamp = 1700000000002, retryCount = 2 \<rparr>"

definition queueStore :: storage where
  "queueStore = \<lparr> houses_slot = Json [scenarioHouse], payments_slot = Json [],
     profile_slot = Absent, sync_queue_slot = Json [queuedA, queuedB, queuedC], last_sync_slot = None,
     write_faults = [] \<rparr>"

definition queueDrainState :: drain_state where
  "queueDrainState = \<lparr> store = queueStore, server = startRemote, successCount = 0, failCount = 0,
     toasts = [SyncingPending 3] \<rparr>"

text \<open>
  A queue holding one \<open>delete_house\<close> item that has failed twice (\<open>stuckStart\<close>) or not yet
  (\<open>freshStart\<close>), with a remote side whose next two calls fail in transport. \<open>runPass t\<close> is
  one call of \<open>processSyncQueue\<close> at clock reading \<open>t\<close> with every guard open.
\<close>

definition stuckItem :: SyncQueueItem where
  "stuckItem = \<lparr> item_id = ''1700000000000_k3j9x0a1b'', type = delete_house,
     data = HouseIdData ''h1'', timestamp = 1700000000000, retryCount = 2 \<rparr>"

definition stuckStore :: storage where
  "stuckStore = \<lparr> houses_slot = Json [], payments_slot = Json [],
     profile_slot = Absent, sync_queue_slot = Json [stuckItem], last_sync_slot = None,
     write_faults = [] \<rparr>"

definition downRemote :: remote where
  "downRemote = \<lparr> account = \<lparr> userProfile = \<lparr> profile_name = ''Ann'' \<rparr>,
                           houses = [''h1'' \<mapsto> scenarioHouse], payments = [] \<rparr>,
     permitted = True, canister_time = 0, net_faults = [True, True] \<rparr>"

definition idleRefs :: sync_refs where
  "idleRefs = \<lparr> syncInProgress = False, lastSyncAttempt = 0 \<rparr>"

definition runPass ::
  "int \<Rightarrow> sync_refs \<times> storage \<times> remote \<times> toast list \<Rightarrow> sync_refs \<times> storage \<times> remote \<times> toast list" where
  "runPass t x =
     processSyncQueue True (onlineEnv\<lparr>clock := t\<rparr>) (t + 500)
       (fst x, fst (snd x), fst (snd (snd x)))"

definition stuckStart :: "sync_refs \<times> storage \<times> remote \<times> toast list" where
  "stuckStart = (idleRefs, stuckStore, downRemote, [])"

definition freshStart :: "sync_refs \<times> storage \<times> remote \<times> toast list" where
  "freshStart =
     (idleRefs, stuckStore\<lparr>sync_queue_slot := Json [stuckItem\<lparr>retryCount := 0\<rparr>]\<rparr>, downRemote, [])"

text \<open>
  The ledger store when its next write takes effect and the one after throws
  (\<open>halfWrittenLedger\<close>), and when its next write throws (\<open>fullLedger\<close>).
\<close>

definition halfWrittenLedger :: storage where
  "halfWrittenLedger = ledgerStore\<lparr>write_faults := [False, True]\<rparr>"

definition fullLedger :: storage where
  "fullLedger = ledgerStore\<lparr>write_faults := [True]\<rparr>"

text \<open>
  The drain state over the queue of three items when the next write to the store throws; and
  a queue of two items enqueued by \<open>addToSyncQueue\<close> at the same clock reading with the same
  random text, which therefore carry the same id. \<open>twinFirst\<close> is the first of the two.
\<close>

definition fullQueueState :: drain_state where
  "fullQueueState = queueDrainState\<lparr>store := queueStore\<lparr>write_faults := [True]\<rparr>\<rparr>"

definition twinFirst :: SyncQueueItem where
  "twinFirst = newItem 1700000000000 ''aaaaaaaaa'' add_house (HouseData scenarioHouse)"

definition twinStore :: storage where
  "twinStore =
     addToSyncQueue 1700000000000 ''aaaaaaaaa'' update_profile
       (ProfileData \<lparr> profile_name = ''Ann B'' \<rparr>)
       (addToSyncQueue 1700000000000 ''aaaaaaaaa'' add_house (HouseData scenarioHouse)
          (queueStore\<lparr>sync_queue_slot := Absent\<rparr>))"

definition twinDrainState :: drain_state where
  "twinDrainState = \<lparr> store = twinStore, server = startRemote, successCount = 0, failCount = 0,
     toasts = [SyncingPending 2] \<rparr>"



section \<open>Properties of the conversion to nanoseconds\<close>

lemma bitLength_0: "bitLength 0 = 0"
  by (subst bitLength.simps) simp

lemma bitLength_le: "n < 2 ^ k \<Longrightarrow> bitLength n \<le> k"
proof (induction k arbitrary: n)
  case 0
  then show ?case by (simp add: bitLength_0)
next
  case (Suc k)
  from Suc.prems have "n div 2 < 2 ^ k" by simp
  then have "bitLength (n div 2) \<le> k" by (rule Suc.IH)
  then show ?case by (subst bitLength.simps) simp
qed

lemma bitLength_eq: "2 ^ k \<le> n \<Longrightarrow> n < 2 ^ Suc k \<Longrightarrow> bitLength n = Suc k"
proof (induction k arbitrary: n)
  case 0
  then have n: "n = 1" by simp
  have "bitLength 1 = Suc (bitLength (1 div 2))" by (subst bitLength.simps) simp
  then show ?case by (simp add: n bitLength_0)
next
  case (Suc k)
  from Suc.prems have "2 ^ k \<le> n div 2" "n div 2 < 2 ^ Suc k" by simp_all
  then have "bitLength (n div 2) = Suc k" by (rule Suc.IH)
  moreover from Suc.prems have "n \<noteq> 0" by auto
  ultimately show ?case by (subst bitLength.simps) simp
qed

text \<open>Below \<open>2 ^ 53\<close> the conversion is exact.\<close>

lemma roundToDouble_exact:
  assumes "\<bar>x\<bar> < 2 ^ 53"
  shows "roundToDouble x = Some x"
proof -
  from assms have a: "nat \<bar>x\<bar> < 2 ^ 53" by (simp add: nat_less_iff)
  then have b: "bitLength (nat \<bar>x\<bar>) \<le> 53" by (rule bitLength_le)
  have "(2 :: nat) ^ 53 < 2 ^ 1024" by (rule power_strict_increasing) simp_all
  with a have c: "\<not> (2::nat) ^ 1024 \<le> nat \<bar>x\<bar>" by (simp only: not_le)
  define a' where "a' = nat \<bar>x\<bar>"
  have "roundToDouble x = Some (if x < 0 then - int a' else int a')"
    using b c unfolding roundToDouble_def Let_def a'_def [symmetric]
    by (simp only: if_True if_False div_by_1 mod_by_1 mult_0_right mult_1_right zero_less_one)
  then show ?thesis by (simp add: a'_def)
qed

lemma bigIntOfProduct_exact: "\<bar>x * y\<bar> < 2 ^ 53 \<Longrightarrow> bigIntOfProduct x y = Some (x * y)"
  by (simp only: bigIntOfProduct_def roundToDouble_exact)

text \<open>
  From \<open>2 ^ 53\<close> on it is not: for the timestamp 1700000000001 the product has 61 bits, the
  doubles of that size are 256 apart, and the value sent is 64 below the exact product.
\<close>

lemma bigIntOfProduct_rounds:
  "bigIntOfProduct 1700000000001 1000000 = Some 1700000000000999936"
proof -
  have "bitLength (nat \<bar>1700000000001 * 1000000\<bar>) = Suc 60"
    by (rule bitLength_eq) simp_all
  then show ?thesis by (simp add: bigIntOfProduct_def roundToDouble_def Let_def)
qed

lemma tryCall_Some: "tryCall (Some f) r = actorCall f r"
  by (simp add: tryCall_def)

section \<open>Properties of the durable local store\<close>

text \<open>What a write does, by the outcome the store holds for it.\<close>

lemma setItem_cases:
  "setItem upd s = (Inr (), upd s) \<and> write_faults s = []
   \<or> (\<exists>fs. write_faults s = True # fs \<and> setItem upd s = (Inl QuotaExceededError, s\<lparr>write_faults := fs\<rparr>))
   \<or> (\<exists>fs. write_faults s = False # fs \<and> setItem upd s = (Inr (), upd (s\<lparr>write_faults := fs\<rparr>)))"
  by (cases "write_faults s") (auto simp: setItem_def)

lemma setItem_no_fault: "write_faults s = [] \<Longrightarrow> setItem upd s = (Inr (), upd s)"
  by (simp add: setItem_def)

lemma setItem_throw_keeps_slots:
  "fst (setItem upd s) = Inl e \<Longrightarrow> slotsOf (snd (setItem upd s)) = slotsOf s"
  using setItem_cases [of upd s] by (auto simp: slotsOf_def)

lemma saveHouses_no_fault: "write_faults s = [] \<Longrightarrow> saveHouses hs s = s\<lparr>houses_slot := Json hs\<rparr>"
  by (simp add: saveHouses_def saveHouses_try_def setItem_def)

lemma savePayments_no_fault: "write_faults s = [] \<Longrightarrow> savePayments ps s = s\<lparr>payments_slot := Json ps\<rparr>"
  by (simp add: savePayments_def savePayments_try_def setItem_def)

lemma saveSyncQueue_no_fault: "write_faults s = [] \<Longrightarrow> saveSyncQueue q s = s\<lparr>sync_queue_slot := Json q\<rparr>"
  by (simp add: saveSyncQueue_def saveSyncQueue_try_def setItem_def)

lemma getHouses_Json: "houses_slot s = Json hs \<Longrightarrow> getHouses s = hs"
  by (simp add: getHouses_def getHouses_try_def parseOr_def)

lemma getPayments_Json: "payments_slot s = Json ps \<Longrightarrow> getPayments s = ps"
  by (simp add: getPayments_def getPayments_try_def parseOr_def)

lemma getSyncQueue_Json: "sync_queue_slot s = Json q \<Longrightarrow> getSyncQueue s = q"
  by (simp add: getSyncQueue_def getSyncQueue_try_def parseOr_def)

lemma getPayments_houses_upd: "getPayments (s\<lparr>houses_slot := x\<rparr>) = getPayments s"
  by (simp add: getPayments_def getPayments_try_def)

lemma getPayments_savePayments: "write_faults s = [] \<Longrightarrow> getPayments (savePayments ps s) = ps"
  by (simp add: savePayments_no_fault getPayments_Json)

lemma write_faults_saveSyncQueue:
  "write_faults s = [] \<Longrightarrow> write_faults (saveSyncQueue q s) = []"
  by (simp add: saveSyncQueue_no_fault)

lemma getSyncQueue_saveSyncQueue:
  "write_faults s = [] \<Longrightarrow> getSyncQueue (saveSyncQueue q s) = q"
  by (simp add: saveSyncQueue_no_fault getSyncQueue_Json)

lemma getSyncQueue_saveSyncQueue_cases:
  "getSyncQueue (saveSyncQueue q s) = q \<or> getSyncQueue (saveSyncQueue q s) = getSyncQueue s"
  using setItem_cases [of "\<lambda>s. s\<lparr>sync_queue_slot := Json q\<rparr>" s]
  by (auto simp: saveSyncQueue_def saveSyncQueue_try_def getSyncQueue_def getSyncQueue_try_def parseOr_def)

lemma payments_slot_saveSyncQueue: "payments_slot (saveSyncQueue q s) = payments_slot s"
  using setItem_cases [of "\<lambda>s. s\<lparr>sync_queue_slot := Json q\<rparr>" s]
  by (auto simp: saveSyncQueue_def saveSyncQueue_try_def)

lemma getPayments_addToSyncQueue: "getPayments (addToSyncQueue now rnd ty d s) = getPayments s"
  by (simp add: addToSyncQueue_def Let_def getPayments_def getPayments_try_def payments_slot_saveSyncQueue)

lemma getSyncQueue_setLastSyncTime: "getSyncQueue (setLastSyncTime t s) = getSyncQueue s"
  using setItem_cases [of "\<lambda>s. s\<lparr>last_sync_slot := Some t\<rparr>" s]
  by (auto simp: setLastSyncTime_def getSyncQueue_def getSyncQueue_try_def)

text \<open>What a write that takes effect does, and what a write does to the other keys.\<close>

lemma writesTakeEffect_nil: "write_faults s = [] \<Longrightarrow> writesTakeEffect n s"
  by (simp add: writesTakeEffect_def)

lemma writesTakeEffect_first: "writesTakeEffect (Suc n) s \<Longrightarrow> writesTakeEffect (Suc 0) s"
  by (cases "write_faults s") (auto simp: writesTakeEffect_def)

lemma setItem_effect:
  assumes "writesTakeEffect (Suc 0) s"
  shows "setItem upd s = (Inr (), upd (s\<lparr>write_faults := tl (write_faults s)\<rparr>))"
proof (cases "write_faults s")
  case Nil
  then have e: "s\<lparr>write_faults := tl (write_faults s)\<rparr> = s" by (cases s) simp
  from Nil have "setItem upd s = (Inr (), upd s)" by (simp add: setItem_def)
  then show ?thesis by (simp only: e)
next
  case (Cons f fs)
  with assms have "\<not> f" by (simp add: writesTakeEffect_def)
  with Cons show ?thesis by (simp add: setItem_def)
qed

lemma saveHouses_effect:
  "writesTakeEffect (Suc 0) s \<Longrightarrow>
     saveHouses hs s = s\<lparr>write_faults := tl (write_faults s), houses_slot := Json hs\<rparr>"
  by (simp add: saveHouses_def saveHouses_try_def setItem_effect)

lemma savePayments_effect:
  "writesTakeEffect (Suc 0) s \<Longrightarrow>
     savePayments ps s = s\<lparr>write_faults := tl (write_faults s), payments_slot := Json ps\<rparr>"
  by (simp add: savePayments_def savePayments_try_def setItem_effect)

lemma saveSyncQueue_effect:
  "writesTakeEffect (Suc 0) s \<Longrightarrow>
     saveSyncQueue q s = s\<lparr>write_faults := tl (write_faults s), sync_queue_slot := Json q\<rparr>"
  by (simp add: saveSyncQueue_def saveSyncQueue_try_def setItem_effect)

lemma getHouses_saveHouses_effect:
  "writesTakeEffect (Suc 0) s \<Longrightarrow> getHouses (saveHouses hs s) = hs"
  by (simp add: saveHouses_effect getHouses_Json)

lemma getPayments_savePayments_effect:
  "writesTakeEffect (Suc 0) s \<Longrightarrow> getPayments (savePayments ps s) = ps"
  by (simp add: savePayments_effect getPayments_Json)

lemma getSyncQueue_saveSyncQueue_effect:
  "writesTakeEffect (Suc 0) s \<Longrightarrow> getSyncQueue (saveSyncQueue q s) = q"
  by (simp add: saveSyncQueue_effect getSyncQueue_Json)

lemma writesTakeEffect_saveHouses:
  "writesTakeEffect (Suc (Suc 0)) s \<Longrightarrow> writesTakeEffect (Suc 0) (saveHouses hs s)"
proof -
  assume a: "writesTakeEffect (Suc (Suc 0)) s"
  then have "writesTakeEffect (Suc 0) s" by (rule writesTakeEffect_first)
  then have "write_faults (saveHouses hs s) = tl (write_faults s)"
    by (simp add: saveHouses_effect)
  with a show ?thesis by (cases "write_faults s") (auto simp: writesTakeEffect_def)
qed

lemma getHouses_saveHouses_cases:
  "getHouses (saveHouses hs s) = hs \<or> getHouses (saveHouses hs s) = getHouses s"
  using setItem_cases [of "\<lambda>s. s\<lparr>houses_slot := Json hs\<rparr>" s]
  by (auto simp: saveHouses_def saveHouses_try_def getHouses_def getHouses_try_def parseOr_def)

lemma getPayments_savePayments_cases:
  "getPayments (savePayments ps s) = ps \<or> getPayments (savePayments ps s) = getPayments s"
  using setItem_cases [of "\<lambda>s. s\<lparr>payments_slot := Json ps\<rparr>" s]
  by (auto simp: savePayments_def savePayments_try_def getPayments_def getPayments_try_def parseOr_def)

lemma getPayments_saveHouses: "getPayments (saveHouses hs s) = getPayments s"
  using setItem_cases [of "\<lambda>s. s\<lparr>houses_slot := Json hs\<rparr>" s]
  by (auto simp: saveHouses_def saveHouses_try_def getPayments_def getPayments_try_def)

lemma getHouses_savePayments: "getHouses (savePayments ps s) = getHouses s"
  using setItem_cases [of "\<lambda>s. s\<lparr>payments_slot := Json ps\<rparr>" s]
  by (auto simp: savePayments_def savePayments_try_def getHouses_def getHouses_try_def)

text \<open>
  Claim C8. Every read of houses, payments, profile and sync queue returns the neutral default
  (the empty list, or no profile) when the key is missing, holds the empty text or holds text
  that does not parse (where the \<open>try\<close> body throws a \<open>SyntaxError\<close> that the \<open>catch\<close>
  absorbs), and returns the stored value otherwise. Every save returns the store left by the
  write attempt whether or not \<open>setItem\<close> threw; when it threw, the contents of all keys are
  as before.
\<close>

theorem storage_failures_absorbed:
  "(houses_slot s = Absent \<or> houses_slot s = Empty_text \<or> houses_slot s = Malformed
      \<longrightarrow> getHouses s = [])
   \<and> (payments_slot s = Absent \<or> payments_slot s = Empty_text \<or> payments_slot s = Malformed
      \<longrightarrow> getPayments s = [])
   \<and> (profile_slot s = Absent \<or> profile_slot s = Empty_text \<or> profile_slot s = Malformed
      \<longrightarrow> getProfile s = None)
   \<and> (sync_queue_slot s = Absent \<or> sync_queue_slot s = Empty_text \<or> sync_queue_slot s = Malformed
      \<longrightarrow> getSyncQueue s = [])
   \<and> (houses_slot s = Malformed \<longrightarrow> getHouses_try s = Inl SyntaxError)
   \<and> (payments_slot s = Malformed \<longrightarrow> getPayments_try s = Inl SyntaxError)
   \<and> (profile_slot s = Malformed \<longrightarrow> getProfile_try s = Inl SyntaxError)
   \<and> (sync_queue_slot s = Malformed \<longrightarrow> getSyncQueue_try s = Inl SyntaxError)
   \<and> (\<forall>v. houses_slot s = Json v \<longrightarrow> getHouses s = v)
   \<and> (\<forall>v. payments_slot s = Json v \<longrightarrow> getPayments s = v)
   \<and> (\<forall>v. profile_slot s = Json v \<longrightarrow> getProfile s = Some v)
   \<and> (\<forall>v. sync_queue_slot s = Json v \<longrightarrow> getSyncQueue s = v)
   \<and> saveHouses hs s = snd (saveHouses_try hs s)
   \<and> savePayments ps s = snd (savePayments_try ps s)
   \<and> saveProfile pr s = snd (saveProfile_try pr s)
   \<and> saveSyncQueue q s = snd (saveSyncQueue_try q s)
   \<and> (\<forall>e. fst (saveHouses_try hs s) = Inl e \<longrightarrow> slotsOf (saveHouses hs s) = slotsOf s)
   \<and> (\<forall>e. fst (savePayments_try ps s) = Inl e \<longrightarrow> slotsOf (savePayments ps s) = slotsOf s)
   \<and> (\<forall>e. fst (saveProfile_try pr s) = Inl e \<longrightarrow> slotsOf (saveProfile pr s) = slotsOf s)
   \<and> (\<forall>e. fst (saveSyncQueue_try q s) = Inl e \<longrightarrow> slotsOf (saveSyncQueue q s) = slotsOf s)"
proof -
  have r1: "houses_slot s = Absent \<or> houses_slot s = Empty_text \<or> houses_slot s = Malformed
      \<longrightarrow> getHouses s = []"
    by (auto simp: getHouses_def getHouses_try_def parseOr_def)
  have r2: "payments_slot s = Absent \<or> payments_slot s = Empty_text \<or> payments_slot s = Malformed
      \<longrightarrow> getPayments s = []"
    by (auto simp: getPayments_def getPayments_try_def parseOr_def)
  have r3: "profile_slot s = Absent \<or> profile_slot s = Empty_text \<or> profile_slot s = Malformed
      \<longrightarrow> getProfile s = None"
    by (auto simp: getProfile_def getProfile_try_def parseOr_def)
  have r4: "sync_queue_slot s = Absent \<or> sync_queue_slot s = Empty_text \<or> sync_queue_slot s = Malformed
      \<longrightarrow> getSyncQueue s = []"
    by (auto simp: getSyncQueue_def getSyncQueue_try_def parseOr_def)
  have t: "houses_slot s = Malformed \<longrightarrow> getHouses_try s = Inl SyntaxError"
       "payments_slot s = Malformed \<longrightarrow> getPayments_try s = Inl SyntaxError"
       "profile_slot s = Malformed \<longrightarrow> getProfile_try s = Inl SyntaxError"
       "sync_queue_slot s = Malformed \<longrightarrow> getSyncQueue_try s = Inl SyntaxError"
    by (simp_all add: getHouses_try_def getPayments_try_def getProfile_try_def getSyncQueue_try_def
          parseOr_def)
  have j: "\<forall>v. houses_slot s = Json v \<longrightarrow> getHouses s = v"
       "\<forall>v. payments_slot s = Json v \<longrightarrow> getPayments s = v"
       "\<forall>v. profile_slot s = Json v \<longrightarrow> getProfile s = Some v"
       "\<forall>v. sync_queue_slot s = Json v \<longrightarrow> getSyncQueue s = v"
    by (simp_all add: getHouses_def getHouses_try_def getPayments_def getPayments_try_def
          getProfile_def getProfile_try_def getSyncQueue_def getSyncQueue_try_def parseOr_def)
  have w: "saveHouses hs s = snd (saveHouses_try hs s)"
       "savePayments ps s = snd (savePayments_try ps s)"
       "saveProfile pr s = snd (saveProfile_try pr s)"
       "saveSyncQueue q s = snd (saveSyncQueue_try q s)"
    by (simp_all add: saveHouses_def savePayments_def saveProfile_def saveSyncQueue_def
          split: prod.splits sum.splits)
  have k: "\<forall>e. fst (saveHouses_try hs s) = Inl e \<longrightarrow> slotsOf (saveHouses hs s) = slotsOf s"
       "\<forall>e. fst (savePayments_try ps s) = Inl e \<longrightarrow> slotsOf (savePayments ps s) = slotsOf s"
       "\<forall>e. fst (saveProfile_try pr s) = Inl e \<longrightarrow> slotsOf (saveProfile pr s) = slotsOf s"
       "\<forall>e. fst (saveSyncQueue_try q s) = Inl e \<longrightarrow> slotsOf (saveSyncQueue q s) = slotsOf s"
    unfolding w
    by (simp_all add: saveHouses_try_def savePayments_try_def saveProfile_try_def
          saveSyncQueue_try_def setItem_throw_keeps_slots)
  from r1 r2 r3 r4 t j w k show ?thesis by blast
qed

text \<open>The claim on \<open>brokenStore\<close>: all four reads give the default, and a save whose write throws leaves the contents alone.\<close>

theorem storage_failures_absorbed_witness:
  "getHouses brokenStore = [] \<and> getPayments brokenStore = [] \<and> getProfile brokenStore = None
   \<and> getSyncQueue brokenStore = []
   \<and> fst (saveHouses_try [scenarioHouse] brokenStore) = Inl QuotaExceededError
   \<and> slotsOf (saveHouses [scenarioHouse] brokenStore) = slotsOf brokenStore"
proof -
  have a: "houses_slot brokenStore = Malformed" "payments_slot brokenStore = Absent"
       "profile_slot brokenStore = Malformed" "sync_queue_slot brokenStore = Empty_text"
    by (simp_all add: brokenStore_def)
  have b: "fst (saveHouses_try [scenarioHouse] brokenStore) = Inl QuotaExceededError"
    by (simp add: saveHouses_try_def setItem_def brokenStore_def)
  from storage_failures_absorbed [of brokenStore "[scenarioHouse]" "[]" "\<lparr> profile_name = [] \<rparr>" "[]"] a b
  show ?thesis by blast
qed

section \<open>Cascading delete of a house\<close>

lemma deleteHouse_no_fault:
  assumes "write_faults s = []"
  shows "getHouses (deleteHouse hid s) = filter (\<lambda>h. house_id h \<noteq> hid) (getHouses s)"
    and "getPayments (deleteHouse hid s) = filter (\<lambda>p. houseId p \<noteq> hid) (getPayments s)"
    and "write_faults (deleteHouse hid s) = []"
  using assms
  by (simp_all add: deleteHouse_def Let_def saveHouses_no_fault savePayments_no_fault
        getHouses_Json getPayments_Json getPayments_houses_upd)

lemma getSyncQueue_deleteHouse: "getSyncQueue (deleteHouse hid s) = getSyncQueue s"
proof -
  have a: "\<And>hs s. sync_queue_slot (saveHouses hs s) = sync_queue_slot s"
  proof -
    fix hs s
    show "sync_queue_slot (saveHouses hs s) = sync_queue_slot s"
      using setItem_cases [of "\<lambda>s. s\<lparr>houses_slot := Json hs\<rparr>" s]
      by (auto simp: saveHouses_def saveHouses_try_def)
  qed
  have b: "\<And>ps s. sync_queue_slot (savePayments ps s) = sync_queue_slot s"
  proof -
    fix ps s
    show "sync_queue_slot (savePayments ps s) = sync_queue_slot s"
      using setItem_cases [of "\<lambda>s. s\<lparr>payments_slot := Json ps\<rparr>" s]
      by (auto simp: savePayments_def savePayments_try_def)
  qed
  show ?thesis
    by (simp add: deleteHouse_def Let_def getSyncQueue_def getSyncQueue_try_def a b)
qed

lemma canister_deleteHouse_ok:
  assumes "perm" and "houses a hid \<noteq> None"
  shows "canister_deleteHouse hid perm a
           = Inr (a\<lparr>houses := (houses a)(hid := None),
                    payments := filter (\<lambda>p. houseId p \<noteq> hid) (payments a)\<rparr>)"
  using assms by (auto simp: canister_deleteHouse_def Let_def)

lemmas ledger_defs = ledgerStore_def ledgerAccount_def payA_def payB_def payC_def scenarioHouse_def
  secondHouse_def getPayments_def getPayments_try_def getHouses_def getHouses_try_def parseOr_def
  getPaymentsByHouse_def sortByDateDesc_def

lemma deleteHouse_effect:
  assumes "writesTakeEffect (Suc (Suc 0)) s"
  shows "getHouses (deleteHouse hid s) = filter (\<lambda>h. house_id h \<noteq> hid) (getHouses s)"
    and "getPayments (deleteHouse hid s) = filter (\<lambda>p. houseId p \<noteq> hid) (getPayments s)"
proof -
  let ?fh = "filter (\<lambda>h. house_id h \<noteq> hid) (getHouses s)"
  from assms have w1: "writesTakeEffect (Suc 0) s" by (rule writesTakeEffect_first)
  from assms have w2: "writesTakeEffect (Suc 0) (saveHouses ?fh s)"
    by (rule writesTakeEffect_saveHouses)
  show "getHouses (deleteHouse hid s) = ?fh"
    by (simp add: deleteHouse_def Let_def getHouses_savePayments getHouses_saveHouses_effect [OF w1])
  show "getPayments (deleteHouse hid s) = filter (\<lambda>p. houseId p \<noteq> hid) (getPayments s)"
    by (simp add: deleteHouse_def Let_def getPayments_savePayments_effect [OF w2]
          getPayments_saveHouses)
qed

lemma deleteHouse_cases:
  "getHouses (deleteHouse hid s) = filter (\<lambda>h. house_id h \<noteq> hid) (getHouses s)
     \<or> getHouses (deleteHouse hid s) = getHouses s"
  "getPayments (deleteHouse hid s) = filter (\<lambda>p. houseId p \<noteq> hid) (getPayments s)
     \<or> getPayments (deleteHouse hid s) = getPayments s"
proof -
  let ?fh = "filter (\<lambda>h. house_id h \<noteq> hid) (getHouses s)"
  let ?fp = "filter (\<lambda>p. houseId p \<noteq> hid) (getPayments s)"
  have d: "deleteHouse hid s = savePayments ?fp (saveHouses ?fh s)"
    by (simp add: deleteHouse_def Let_def getPayments_saveHouses)
  from getHouses_saveHouses_cases [of ?fh s]
  show "getHouses (deleteHouse hid s) = ?fh \<or> getHouses (deleteHouse hid s) = getHouses s"
    by (simp add: d getHouses_savePayments)
  from getPayments_savePayments_cases [of ?fp "saveHouses ?fh s"]
  show "getPayments (deleteHouse hid s) = ?fp \<or> getPayments (deleteHouse hid s) = getPayments s"
    by (simp add: d getPayments_saveHouses)
qed

text \<open>
  Claim C4, as the code has it. \<open>deleteHouse\<close> writes the list of houses without the house and
  then the list of payments without the payments that refer to it; a write that throws is
  caught and leaves its list as it was. When both writes take effect, the house and exactly
  the payments that refer to it are removed, so that no house and no payment with that id
  remains and the no-orphans invariant is preserved. On the canister, \<open>deleteHouse\<close> of a
  permitted caller for an existing house removes the house and its payments and preserves
  the same invariant; otherwise it traps and changes nothing.
\<close>

theorem delete_house_cascades:
  "(getHouses (deleteHouse hid s) = filter (\<lambda>h. house_id h \<noteq> hid) (getHouses s)
      \<or> getHouses (deleteHouse hid s) = getHouses s)
   \<and> (getPayments (deleteHouse hid s) = filter (\<lambda>p. houseId p \<noteq> hid) (getPayments s)
      \<or> getPayments (deleteHouse hid s) = getPayments s)
   \<and> (writesTakeEffect 2 s \<longrightarrow>
      getHouses (deleteHouse hid s) = filter (\<lambda>h. house_id h \<noteq> hid) (getHouses s)
      \<and> getPayments (deleteHouse hid s) = filter (\<lambda>p. houseId p \<noteq> hid) (getPayments s)
      \<and> hid \<notin> set (map house_id (getHouses (deleteHouse hid s)))
      \<and> hid \<notin> set (map houseId (getPayments (deleteHouse hid s)))
      \<and> (noOrphans s \<longrightarrow> noOrphans (deleteHouse hid s)))
   \<and> (perm \<and> houses a hid \<noteq> None \<longrightarrow>
        (\<exists>a'. canister_deleteHouse hid perm a = Inr a'
           \<and> houses a' = (houses a)(hid := None)
           \<and> payments a' = filter (\<lambda>p. houseId p \<noteq> hid) (payments a)
           \<and> hid \<notin> set (map houseId (payments a'))
           \<and> (accountNoOrphans a \<longrightarrow> accountNoOrphans a')))
   \<and> (\<not> perm \<or> houses a hid = None \<longrightarrow> (\<exists>t. canister_deleteHouse hid perm a = Inl t))"
proof (intro conjI impI)
  show "getHouses (deleteHouse hid s) = filter (\<lambda>h. house_id h \<noteq> hid) (getHouses s)
      \<or> getHouses (deleteHouse hid s) = getHouses s"
    by (rule deleteHouse_cases(1))
  show "getPayments (deleteHouse hid s) = filter (\<lambda>p. houseId p \<noteq> hid) (getPayments s)
      \<or> getPayments (deleteHouse hid s) = getPayments s"
    by (rule deleteHouse_cases(2))
next
  assume "writesTakeEffect 2 s"
  then have nf: "writesTakeEffect (Suc (Suc 0)) s" by (simp add: numeral_2_eq_2)
  show "getHouses (deleteHouse hid s) = filter (\<lambda>h. house_id h \<noteq> hid) (getHouses s)"
    by (rule deleteHouse_effect(1) [OF nf])
  show "getPayments (deleteHouse hid s) = filter (\<lambda>p. houseId p \<noteq> hid) (getPayments s)"
    by (rule deleteHouse_effect(2) [OF nf])
  show "hid \<notin> set (map house_id (getHouses (deleteHouse hid s)))"
    by (auto simp: deleteHouse_effect(1) [OF nf])
  show "hid \<notin> set (map houseId (getPayments (deleteHouse hid s)))"
    by (auto simp: deleteHouse_effect(2) [OF nf])
  assume "noOrphans s"
  then show "noOrphans (deleteHouse hid s)"
    by (auto simp: noOrphans_def list_all_iff deleteHouse_effect(1,2) [OF nf])
next
  assume ok: "perm \<and> houses a hid \<noteq> None"
  let ?a' = "a\<lparr>houses := (houses a)(hid := None),
                payments := filter (\<lambda>p. houseId p \<noteq> hid) (payments a)\<rparr>"
  have "canister_deleteHouse hid perm a = Inr ?a'"
    using ok by (simp add: canister_deleteHouse_ok)
  moreover have "accountNoOrphans a \<longrightarrow> accountNoOrphans ?a'"
    by (auto simp: accountNoOrphans_def list_all_iff)
  ultimately show "\<exists>a'. canister_deleteHouse hid perm a = Inr a'
           \<and> houses a' = (houses a)(hid := None)
           \<and> payments a' = filter (\<lambda>p. houseId p \<noteq> hid) (payments a)
           \<and> hid \<notin> set (map houseId (payments a'))
           \<and> (accountNoOrphans a \<longrightarrow> accountNoOrphans a')"
    by auto
next
  assume "\<not> perm \<or> houses a hid = None"
  then show "\<exists>t. canister_deleteHouse hid perm a = Inl t"
    by (auto simp: canister_deleteHouse_def)
qed

text \<open>The claim on \<open>ledgerStore\<close> and \<open>ledgerAccount\<close>: deleting \<open>h1\<close> leaves the house \<open>h2\<close> and its payment.\<close>

theorem delete_house_cascades_witness:
  "writesTakeEffect 2 ledgerStore \<and> noOrphans ledgerStore
   \<and> getHouses (deleteHouse ''h1'' ledgerStore) = [secondHouse]
   \<and> getPayments (deleteHouse ''h1'' ledgerStore) = [payC]
   \<and> noOrphans (deleteHouse ''h1'' ledgerStore)
   \<and> accountNoOrphans ledgerAccount
   \<and> (\<exists>a'. canister_deleteHouse ''h1'' True ledgerAccount = Inr a' \<and> payments a' = [payC]
          \<and> accountNoOrphans a')"
proof -
  have nf: "writesTakeEffect 2 ledgerStore" by (simp add: ledgerStore_def writesTakeEffect_def)
  have inv: "noOrphans ledgerStore" by (simp add: noOrphans_def ledger_defs)
  have hs: "getHouses ledgerStore = [scenarioHouse, secondHouse]"
    and ps: "getPayments ledgerStore = [payA, payC, payB]"
    by (simp_all add: ledgerStore_def getHouses_def getHouses_try_def getPayments_def
          getPayments_try_def parseOr_def)
  have ids: "house_id scenarioHouse = ''h1''" "house_id secondHouse = ''h2''"
    "houseId payA = ''h1''" "houseId payB = ''h1''" "houseId payC = ''h2''"
    by (simp_all add: scenarioHouse_def secondHouse_def payA_def payB_def payC_def)
  have ainv: "accountNoOrphans ledgerAccount"
    by (simp add: accountNoOrphans_def ledgerAccount_def ids)
  have ex: "houses ledgerAccount ''h1'' \<noteq> None" "payments ledgerAccount = [payA, payC, payB]"
    by (simp_all add: ledgerAccount_def)
  from delete_house_cascades [of "''h1''" ledgerStore True ledgerAccount] nf inv ainv ex hs ps ids
  show ?thesis by auto
qed

text \<open>
  When the write of the houses takes effect and the write of the payments throws, the house
  is gone and its payments stay: on \<open>halfWrittenLedger\<close>, where every payment refers to a house
  of the store, deleting \<open>h1\<close> leaves the house \<open>h2\<close> and all three payments, two of which
  refer to \<open>h1\<close>.
\<close>

theorem delete_house_half_written:
  "noOrphans halfWrittenLedger
   \<and> getHouses (deleteHouse ''h1'' halfWrittenLedger) = [secondHouse]
   \<and> getPayments (deleteHouse ''h1'' halfWrittenLedger) = [payA, payC, payB]
   \<and> houseId payA = ''h1''
   \<and> \<not> noOrphans (deleteHouse ''h1'' halfWrittenLedger)"
  by (simp add: noOrphans_def halfWrittenLedger_def deleteHouse_def Let_def ledger_defs
        saveHouses_def saveHouses_try_def savePayments_def savePayments_try_def setItem_def)

text \<open>
  Deleting a house while offline removes the house and its payments locally and appends one
  \<open>delete_house\<close> item to the queue.
\<close>

lemma useDeleteHouse_queues_one_item:
  assumes "\<not> isOnline env" and "write_faults s = []"
  shows "getSyncQueue (fst (useDeleteHouse env hid (s, r)))
           = getSyncQueue s @ [newItem (clock env) (random36 env) delete_house (HouseIdData hid)]"
    and "getHouses (fst (useDeleteHouse env hid (s, r))) = filter (\<lambda>h. house_id h \<noteq> hid) (getHouses s)"
    and "getPayments (fst (useDeleteHouse env hid (s, r))) = filter (\<lambda>p. houseId p \<noteq> hid) (getPayments s)"
proof -
  have f: "fst (useDeleteHouse env hid (s, r))
             = addToSyncQueue (clock env) (random36 env) delete_house (HouseIdData hid) (deleteHouse hid s)"
    using assms(1) by (simp add: useDeleteHouse_def Let_def syncOrQueue_def)
  have nf: "write_faults (deleteHouse hid s) = []"
    by (rule deleteHouse_no_fault(3) [OF assms(2)])
  show "getSyncQueue (fst (useDeleteHouse env hid (s, r)))
           = getSyncQueue s @ [newItem (clock env) (random36 env) delete_house (HouseIdData hid)]"
    by (simp add: f addToSyncQueue_def Let_def getSyncQueue_saveSyncQueue [OF nf] getSyncQueue_deleteHouse)
  have h: "\<And>q s. houses_slot (saveSyncQueue q s) = houses_slot s"
  proof -
    fix q s
    show "houses_slot (saveSyncQueue q s) = houses_slot s"
      using setItem_cases [of "\<lambda>s. s\<lparr>sync_queue_slot := Json q\<rparr>" s]
      by (auto simp: saveSyncQueue_def saveSyncQueue_try_def)
  qed
  show "getHouses (fst (useDeleteHouse env hid (s, r))) = filter (\<lambda>h. house_id h \<noteq> hid) (getHouses s)"
    using deleteHouse_no_fault(1) [OF assms(2), of hid]
    by (simp add: f addToSyncQueue_def Let_def getHouses_def getHouses_try_def h)
  show "getPayments (fst (useDeleteHouse env hid (s, r))) = filter (\<lambda>p. houseId p \<noteq> hid) (getPayments s)"
    using deleteHouse_no_fault(2) [OF assms(2), of hid]
    by (simp add: f getPayments_addToSyncQueue)
qed

section \<open>Properties of the derived-view calculator\<close>

lemma foldl_add_amount: "foldl (\<lambda>sum p. sum + amount p) a ps = a + sum_list (map amount ps)"
  by (induction ps arbitrary: a) simp_all

lemma sumAmounts_sum_list: "sumAmounts ps = sum_list (map amount ps)"
  by (simp add: sumAmounts_def foldl_add_amount)

lemma sum_list_insort_key: "sum_list (map f (insort_key k x xs)) = f x + sum_list (map f xs)"
  for f :: "'a \<Rightarrow> real"
  by (induction xs) simp_all

lemma sum_list_sort_key: "sum_list (map f (sort_key k xs)) = sum_list (map f xs)"
  for f :: "'a \<Rightarrow> real"
  by (induction xs) (simp_all add: sum_list_insort_key)

lemma sumAmounts_sorted: "sumAmounts (sortByDateDesc ps) = sum_list (map amount ps)"
  by (simp add: sumAmounts_sum_list sortByDateDesc_def sum_list_sort_key)

lemma progress_formulas:
  assumes "find (\<lambda>h. house_id h = hid) (getHouses s) = Some house"
  shows "\<exists>hp. calculateHouseProgress hid s = Some hp
     \<and> interestAmount hp = (totalCost house - downPayment house) * interestRate house / 100
     \<and> totalLoanAmount hp = (totalCost house - downPayment house) + interestAmount hp
     \<and> totalPaid hp = sum_list (map amount (filter (\<lambda>p. houseId p = hid) (getPayments s)))
     \<and> remainingBalance hp = totalLoanAmount hp - totalPaid hp
     \<and> progressPercentage hp = (if totalLoanAmount hp = 0 then Finite 0
                                 else Finite (totalPaid hp / totalLoanAmount hp * 100))"
  using assms
  by (simp add: calculateHouseProgress_def Let_def getPaymentsByHouse_def sumAmounts_sorted
        progressPercentageOf_def)

lemmas eval_defs = calculateHouseProgress_def getHouses_def getHouses_try_def parseOr_def
   getPaymentsByHouse_def getPayments_def getPayments_try_def sortByDateDesc_def sumAmounts_def Let_def
   useAddPayment_def syncOrQueue_def savePayments_def savePayments_try_def setItem_def
   addToSyncQueue_def saveSyncQueue_def saveSyncQueue_try_def progressPercentageOf_def

lemma scenario_A: "calculateHouseProgress ''h1'' scenarioStore = Some
  \<lparr>totalPaid = 0, remainingBalance = 249600, progressPercentage = Finite 0,
     interestAmount = 9600, hp_downPayment = 60000, hp_loanTermYears = 30,
     totalLoanAmount = 249600\<rparr>"
  by (simp add: eval_defs scenarioStore_def scenarioHouse_def)

lemma scenario_B: "calculateHouseProgress ''h1''
     (fst (useAddPayment offlineEnv 24960 ''first'' ''h1'' ''bank'' None (scenarioStore, r))) = Some
  \<lparr>totalPaid = 24960, remainingBalance = 224640, progressPercentage = Finite 10,
     interestAmount = 9600, hp_downPayment = 60000, hp_loanTermYears = 30,
     totalLoanAmount = 249600\<rparr>"
  by (simp add: eval_defs scenarioStore_def scenarioHouse_def offlineEnv_def)

text \<open>
  Claim C3. For the house that \<open>calculateHouseProgress\<close> finds under the given id, the result
  has \<open>interestAmount = loanAmount * interestRate / 100\<close> with
  \<open>loanAmount = totalCost - downPayment\<close>, \<open>totalLoanAmount = loanAmount + interestAmount\<close> (the
  total payable), \<open>totalPaid\<close> the sum of the amounts of the payments that refer to the house,
  \<open>remainingBalance = totalLoanAmount - totalPaid\<close>, and the progress percentage
  \<open>totalPaid / totalLoanAmount * 100\<close>, or 0 when the total payable is 0. For the house with
  cost 300000, down payment 60000 and rate 4 and no payments the remaining balance is 249600
  and the percentage 0; after one payment of 24960 is added (here offline), the total paid is
  24960 and the percentage 10.
\<close>

theorem house_progress_calculation:
  "(\<forall>hid s house. find (\<lambda>h. house_id h = hid) (getHouses s) = Some house \<longrightarrow>
      (\<exists>hp. calculateHouseProgress hid s = Some hp
         \<and> interestAmount hp = (totalCost house - downPayment house) * interestRate house / 100
         \<and> totalLoanAmount hp = (totalCost house - downPayment house) + interestAmount hp
         \<and> totalPaid hp = sum_list (map amount (filter (\<lambda>p. houseId p = hid) (getPayments s)))
         \<and> remainingBalance hp = totalLoanAmount hp - totalPaid hp
         \<and> progressPercentage hp = (if totalLoanAmount hp = 0 then Finite 0
                                     else Finite (totalPaid hp / totalLoanAmount hp * 100))))
   \<and> calculateHouseProgress ''h1'' scenarioStore = Some
        \<lparr>totalPaid = 0, remainingBalance = 249600, progressPercentage = Finite 0,
         interestAmount = 9600, hp_downPayment = 60000, hp_loanTermYears = 30,
         totalLoanAmount = 249600\<rparr>
   \<and> (\<forall>r. calculateHouseProgress ''h1''
          (fst (useAddPayment offlineEnv 24960 ''first'' ''h1'' ''bank'' None (scenarioStore, r))) = Some
        \<lparr>totalPaid = 24960, remainingBalance = 224640, progressPercentage = Finite 10,
         interestAmount = 9600, hp_downPayment = 60000, hp_loanTermYears = 30,
         totalLoanAmount = 249600\<rparr>)"
  using progress_formulas scenario_A scenario_B by blast

text \<open>The general part of the claim, used on the scenario house.\<close>

theorem house_progress_calculation_witness:
  "find (\<lambda>h. house_id h = ''h1'') (getHouses scenarioStore) = Some scenarioHouse
   \<and> (\<exists>hp. calculateHouseProgress ''h1'' scenarioStore = Some hp
          \<and> interestAmount hp = 9600 \<and> totalLoanAmount hp = 249600)"
proof -
  have f: "find (\<lambda>h. house_id h = ''h1'') (getHouses scenarioStore) = Some scenarioHouse"
    by (simp add: scenarioStore_def scenarioHouse_def getHouses_def getHouses_try_def parseOr_def)
  from house_progress_calculation
  have "\<forall>hid s house. find (\<lambda>h. house_id h = hid) (getHouses s) = Some house \<longrightarrow>
      (\<exists>hp. calculateHouseProgress hid s = Some hp
         \<and> interestAmount hp = (totalCost house - downPayment house) * interestRate house / 100
         \<and> totalLoanAmount hp = (totalCost house - downPayment house) + interestAmount hp
         \<and> totalPaid hp = sum_list (map amount (filter (\<lambda>p. houseId p = hid) (getPayments s)))
         \<and> remainingBalance hp = totalLoanAmount hp - totalPaid hp
         \<and> progressPercentage hp = (if totalLoanAmount hp = 0 then Finite 0
                                     else Finite (totalPaid hp / totalLoanAmount hp * 100)))"
    by (rule conjunct1)
  with f obtain hp where "calculateHouseProgress ''h1'' scenarioStore = Some hp"
    and "interestAmount hp = (totalCost scenarioHouse - downPayment scenarioHouse) * interestRate scenarioHouse / 100"
    and "totalLoanAmount hp = (totalCost scenarioHouse - downPayment scenarioHouse) + interestAmount hp"
    by blast
  then show ?thesis using f by (simp add: scenarioHouse_def)
qed

lemma ratio_bounds:
  fixes p t :: real
  assumes "0 \<le> p" and "p \<le> t" and "t \<noteq> 0"
  shows "0 \<le> p / t * 100 \<and> p / t * 100 \<le> 100"
proof -
  define q where "q = p / t"
  have tp: "0 < t" using assms by linarith
  have "0 \<le> q" using assms(1) tp by (simp add: q_def)
  moreover have "q \<le> 1" using assms(2) tp by (simp add: q_def)
  ultimately have "0 \<le> q * 100 \<and> q * 100 \<le> 100" by simp
  then show ?thesis by (simp only: q_def)
qed

lemma progressPercentageOf_zero: "progressPercentageOf p (Finite 0) = Finite 0"
  by (simp add: progressPercentageOf_def)

lemma progressPercentageOf_bounded:
  assumes "js_le (Finite 0) p" and "js_le p t" and "p \<noteq> PosInfinity"
  shows "\<exists>x. progressPercentageOf p t = Finite x \<and> 0 \<le> x \<and> x \<le> 100"
proof -
  from assms(1,3) obtain a where p: "p = Finite a" and a: "0 \<le> a"
    by (cases p) auto
  show ?thesis
  proof (cases t)
    case (Finite b)
    with assms(2) p have ab: "a \<le> b" by simp
    show ?thesis
    proof (cases "b = 0")
      case True
      then show ?thesis using Finite by (simp add: progressPercentageOf_def)
    next
      case False
      then have "progressPercentageOf p t = Finite (a / b * 100)"
        using p Finite by (simp add: progressPercentageOf_def)
      then show ?thesis using ratio_bounds [OF a ab False] by simp
    qed
  next
    case PosInfinity
    then show ?thesis using p by (simp add: progressPercentageOf_def)
  next
    case NegInfinity
    then show ?thesis using assms(2) p by simp
  next
    case NaN
    then show ?thesis using assms(2) p by simp
  qed
qed

lemma progressPercentageOf_infinite: "progressPercentageOf PosInfinity PosInfinity = NaN"
  by (simp add: progressPercentageOf_def)

lemma calculateHouseProgress_percentage:
  "calculateHouseProgress hid s = Some hp \<Longrightarrow>
     progressPercentage hp = progressPercentageOf (Finite (totalPaid hp)) (Finite (totalLoanAmount hp))"
  by (auto simp: calculateHouseProgress_def Let_def split: option.splits)

lemma canister_getHouseProgress_percentage:
  "canister_getHouseProgress hid perm a = Inr hp \<Longrightarrow>
     progressPercentage hp = progressPercentageOf (Finite (totalPaid hp)) (Finite (totalLoanAmount hp))"
  by (auto simp: canister_getHouseProgress_def Let_def split: option.splits if_splits)

text \<open>
  Claim C5, as the code has it. Let \<open>totalPaid\<close> and \<open>totalLoanAmount\<close> (the total payable) be
  the two numbers that the last step of the calculation divides, whatever they are: finite,
  infinite or \<open>NaN\<close>. The progress percentage is exactly 0 when the total payable is 0. When
  \<open>0 \<le> totalPaid\<close>, \<open>totalPaid \<le> totalLoanAmount\<close> and \<open>totalPaid\<close> is not infinite, it is a
  finite number between 0 and 100, so neither \<open>NaN\<close> nor an infinity. When both totals are
  \<open>+Infinity\<close>, where \<open>totalPaid \<le> totalLoanAmount\<close> holds as well, it is \<open>NaN\<close>. The local
  \<open>calculateHouseProgress\<close> and the canister's \<open>getHouseProgress\<close> both compute the percentage
  by this step from the totals they return, so for their results: 0 when the total payable
  is 0, and between 0 and 100 when \<open>0 \<le> totalPaid \<le> totalLoanAmount\<close>. The lower bound on
  \<open>totalPaid\<close> is needed, as the store with a negative payment below shows.
\<close>

theorem progress_percentage_bounds:
  "progressPercentageOf p (Finite 0) = Finite 0
   \<and> (js_le (Finite 0) p \<and> js_le p t \<and> p \<noteq> PosInfinity \<longrightarrow>
        (\<exists>x. progressPercentageOf p t = Finite x \<and> 0 \<le> x \<and> x \<le> 100))
   \<and> (js_le (Finite 0) PosInfinity \<and> js_le PosInfinity PosInfinity
        \<and> progressPercentageOf PosInfinity PosInfinity = NaN)
   \<and> (calculateHouseProgress hid s = Some hp \<longrightarrow>
        progressPercentage hp
          = progressPercentageOf (Finite (totalPaid hp)) (Finite (totalLoanAmount hp))
        \<and> (totalLoanAmount hp = 0 \<longrightarrow> progressPercentage hp = Finite 0)
        \<and> (0 \<le> totalPaid hp \<and> totalPaid hp \<le> totalLoanAmount hp \<longrightarrow>
             (\<exists>x. progressPercentage hp = Finite x \<and> 0 \<le> x \<and> x \<le> 100)))
   \<and> (canister_getHouseProgress hid perm a = Inr hp' \<longrightarrow>
        progressPercentage hp'
          = progressPercentageOf (Finite (totalPaid hp')) (Finite (totalLoanAmount hp'))
        \<and> (totalLoanAmount hp' = 0 \<longrightarrow> progressPercentage hp' = Finite 0)
        \<and> (0 \<le> totalPaid hp' \<and> totalPaid hp' \<le> totalLoanAmount hp' \<longrightarrow>
             (\<exists>x. progressPercentage hp' = Finite x \<and> 0 \<le> x \<and> x \<le> 100)))"
proof -
  have gen: "js_le (Finite 0) p \<and> js_le p t \<and> p \<noteq> PosInfinity \<longrightarrow>
        (\<exists>x. progressPercentageOf p t = Finite x \<and> 0 \<le> x \<and> x \<le> 100)"
    using progressPercentageOf_bounded by blast
  have inf: "js_le (Finite 0) PosInfinity \<and> js_le PosInfinity PosInfinity
        \<and> progressPercentageOf PosInfinity PosInfinity = NaN"
    by (simp add: progressPercentageOf_infinite)
  have fin: "\<And>h :: HouseProgress.
      progressPercentage h
          = progressPercentageOf (Finite (totalPaid h)) (Finite (totalLoanAmount h)) \<Longrightarrow>
      (totalLoanAmount h = 0 \<longrightarrow> progressPercentage h = Finite 0)
        \<and> (0 \<le> totalPaid h \<and> totalPaid h \<le> totalLoanAmount h \<longrightarrow>
             (\<exists>x. progressPercentage h = Finite x \<and> 0 \<le> x \<and> x \<le> 100))"
  proof -
    fix h :: HouseProgress
    assume e: "progressPercentage h
          = progressPercentageOf (Finite (totalPaid h)) (Finite (totalLoanAmount h))"
    have z: "totalLoanAmount h = 0 \<longrightarrow> progressPercentage h = Finite 0"
      by (simp add: e progressPercentageOf_zero)
    have b: "0 \<le> totalPaid h \<and> totalPaid h \<le> totalLoanAmount h \<longrightarrow>
             (\<exists>x. progressPercentage h = Finite x \<and> 0 \<le> x \<and> x \<le> 100)"
      using progressPercentageOf_bounded [of "Finite (totalPaid h)" "Finite (totalLoanAmount h)"]
      by (simp add: e)
    from z b show "(totalLoanAmount h = 0 \<longrightarrow> progressPercentage h = Finite 0)
        \<and> (0 \<le> totalPaid h \<and> totalPaid h \<le> totalLoanAmount h \<longrightarrow>
             (\<exists>x. progressPercentage h = Finite x \<and> 0 \<le> x \<and> x \<le> 100))"
      by (rule conjI)
  qed
  have loc: "calculateHouseProgress hid s = Some hp \<longrightarrow>
        progressPercentage hp
          = progressPercentageOf (Finite (totalPaid hp)) (Finite (totalLoanAmount hp))
        \<and> (totalLoanAmount hp = 0 \<longrightarrow> progressPercentage hp = Finite 0)
        \<and> (0 \<le> totalPaid hp \<and> totalPaid hp \<le> totalLoanAmount hp \<longrightarrow>
             (\<exists>x. progressPercentage hp = Finite x \<and> 0 \<le> x \<and> x \<le> 100))"
    using calculateHouseProgress_percentage [of hid s hp] fin [of hp] by blast
  have rem: "canister_getHouseProgress hid perm a = Inr hp' \<longrightarrow>
        progressPercentage hp'
          = progressPercentageOf (Finite (totalPaid hp')) (Finite (totalLoanAmount hp'))
        \<and> (totalLoanAmount hp' = 0 \<longrightarrow> progressPercentage hp' = Finite 0)
        \<and> (0 \<le> totalPaid hp' \<and> totalPaid hp' \<le> totalLoanAmount hp' \<longrightarrow>
             (\<exists>x. progressPercentage hp' = Finite x \<and> 0 \<le> x \<and> x \<le> 100))"
    using canister_getHouseProgress_percentage [of hid perm a hp'] fin [of hp'] by blast
  from progressPercentageOf_zero [of p] gen inf loc rem show ?thesis by blast
qed

text \<open>
  The claim on the scenario house with one payment of 24960, where the percentage is 10, and
  on the totals 24960 and 249600 taken as such.
\<close>

theorem progress_percentage_bounds_witness:
  "calculateHouseProgress ''h1'' scenarioPaidStore = Some
     \<lparr>totalPaid = 24960, remainingBalance = 224640, progressPercentage = Finite 10,
      interestAmount = 9600, hp_downPayment = 60000, hp_loanTermYears = 30, totalLoanAmount = 249600\<rparr>
   \<and> js_le (Finite 0) (Finite 24960) \<and> js_le (Finite 24960) (Finite 249600)
   \<and> progressPercentageOf (Finite 24960) (Finite 249600) = Finite 10
   \<and> (\<exists>x. progressPercentageOf (Finite 24960) (Finite 249600) = Finite x \<and> 0 \<le> x \<and> x \<le> 100)"
proof -
  have c: "calculateHouseProgress ''h1'' scenarioPaidStore = Some
     \<lparr>totalPaid = 24960, remainingBalance = 224640, progressPercentage = Finite 10,
      interestAmount = 9600, hp_downPayment = 60000, hp_loanTermYears = 30, totalLoanAmount = 249600\<rparr>"
    by (simp add: eval_defs scenarioPaidStore_def scenarioStore_def scenarioHouse_def scenarioPayment_def)
  have l: "js_le (Finite 0) (Finite 24960) \<and> js_le (Finite 24960) (Finite 249600)
           \<and> Finite 24960 \<noteq> PosInfinity"
    by simp
  have v: "progressPercentageOf (Finite 24960) (Finite 249600) = Finite 10"
    by (simp add: progressPercentageOf_def)
  from progress_percentage_bounds [of "Finite 24960" "Finite 249600" "''h1''" scenarioPaidStore
     "\<lparr>totalPaid = 24960, remainingBalance = 224640, progressPercentage = Finite 10,
      interestAmount = 9600, hp_downPayment = 60000, hp_loanTermYears = 30, totalLoanAmount = 249600\<rparr>"]
     l
  have "\<exists>x. progressPercentageOf (Finite 24960) (Finite 249600) = Finite x \<and> 0 \<le> x \<and> x \<le> 100"
    by blast
  with c l v show ?thesis by blast
qed

text \<open>
  With a payment of negative amount the total paid is below the total payable and the
  percentage is below 0: here \<open>totalPaid = -50\<close>, \<open>totalLoanAmount = 100\<close> and the percentage
  is -50.
\<close>

theorem progress_percentage_negative:
  "calculateHouseProgress ''h1'' refundStore = Some
     \<lparr>totalPaid = - 50, remainingBalance = 150, progressPercentage = Finite (- 50),
      interestAmount = 0, hp_downPayment = 0, hp_loanTermYears = 30, totalLoanAmount = 100\<rparr>"
  by (simp add: eval_defs refundStore_def refundHouse_def refundPayment_def)

section \<open>Properties of the mutation queue\<close>












lemmas queue_defs = queueDrainState_def queueStore_def queuedA_def queuedB_def queuedC_def
  getSyncQueue_def getSyncQueue_try_def parseOr_def



section \<open>Properties of the drain pass\<close>

lemma filter_distinct_nth:
  "distinct (map f xs) \<Longrightarrow> i < length xs
     \<Longrightarrow> filter (\<lambda>x. f x \<noteq> f (xs ! i)) xs = take i xs @ drop (Suc i) xs"
proof (induction xs arbitrary: i)
  case Nil
  then show ?case by simp
next
  case (Cons x xs)
  show ?case
  proof (cases i)
    case 0
    from Cons.prems(1) have nx: "f x \<notin> f ` set xs" by simp
    have "\<forall>y\<in>set xs. f y \<noteq> f x"
    proof
      fix y assume "y \<in> set xs"
      then have "f y \<in> f ` set xs" by simp
      with nx show "f y \<noteq> f x" by metis
    qed
    then have "filter (\<lambda>y. f y \<noteq> f x) xs = xs"
      by (simp add: filter_id_conv)
    then show ?thesis using 0 by simp
  next
    case (Suc j)
    then have j: "j < length xs" using Cons.prems(2) by simp
    then have "f x \<noteq> f (xs ! j)" using Cons.prems(1) by auto
    then show ?thesis using Suc Cons.IH [of j] Cons.prems(1) j by simp
  qed
qed

lemma removeFromSyncQueue_effect:
  "writesTakeEffect (Suc 0) s \<Longrightarrow>
     getSyncQueue (removeFromSyncQueue itemId s)
       = filter (\<lambda>item. item_id item \<noteq> itemId) (getSyncQueue s)"
  by (simp add: removeFromSyncQueue_def Let_def getSyncQueue_saveSyncQueue_effect)

lemma removeFromSyncQueue_cases:
  "getSyncQueue (removeFromSyncQueue itemId s)
       = filter (\<lambda>item. item_id item \<noteq> itemId) (getSyncQueue s)
   \<or> getSyncQueue (removeFromSyncQueue itemId s) = getSyncQueue s"
  using getSyncQueue_saveSyncQueue_cases
          [of "filter (\<lambda>item. item_id item \<noteq> itemId) (getSyncQueue s)" s]
  by (simp add: removeFromSyncQueue_def Let_def)

text \<open>
  Claim C7, as the code has it. A turn of the drain loop whose remote call resolves counts one
  success and calls \<open>removeFromSyncQueue\<close>, which writes the stored queue without the items
  that carry the id of the synced item; the failure counter and the notices are unchanged.
  If the write throws, the stored queue stays as it was. If the write takes effect, every
  item with that id is gone and the other items stay as they are, in their order; when in
  addition the ids of the stored queue are pairwise different, the stored queue loses
  exactly the element at the position of the synced item.
\<close>

theorem sync_success_removes_exactly_one:
  assumes "processSyncItem actorPresent item (server st) = (None, r')"
  shows "successCount (drainItem actorPresent item st) = successCount st + 1
       \<and> failCount (drainItem actorPresent item st) = failCount st
       \<and> toasts (drainItem actorPresent item st) = toasts st
       \<and> (getSyncQueue (store (drainItem actorPresent item st))
             = filter (\<lambda>x. item_id x \<noteq> item_id item) (getSyncQueue (store st))
          \<or> getSyncQueue (store (drainItem actorPresent item st)) = getSyncQueue (store st))
       \<and> (writesTakeEffect 1 (store st) \<longrightarrow>
             getSyncQueue (store (drainItem actorPresent item st))
               = filter (\<lambda>x. item_id x \<noteq> item_id item) (getSyncQueue (store st)))
       \<and> (writesTakeEffect 1 (store st)
            \<and> distinct (map item_id (getSyncQueue (store st)))
            \<and> i < length (getSyncQueue (store st))
            \<and> item_id (getSyncQueue (store st) ! i) = item_id item \<longrightarrow>
             getSyncQueue (store (drainItem actorPresent item st))
               = take i (getSyncQueue (store st)) @ drop (Suc i) (getSyncQueue (store st)))"
proof -
  let ?q = "getSyncQueue (store st)"
  let ?q' = "getSyncQueue (store (drainItem actorPresent item st))"
  have st: "store (drainItem actorPresent item st) = removeFromSyncQueue (item_id item) (store st)"
    using assms by (simp add: drainItem_def)
  have c: "successCount (drainItem actorPresent item st) = successCount st + 1
       \<and> failCount (drainItem actorPresent item st) = failCount st
       \<and> toasts (drainItem actorPresent item st) = toasts st"
    using assms by (simp add: drainItem_def)
  have g: "?q' = filter (\<lambda>x. item_id x \<noteq> item_id item) ?q \<or> ?q' = ?q"
    using removeFromSyncQueue_cases [of "item_id item" "store st"] by (simp add: st)
  have e: "writesTakeEffect 1 (store st) \<longrightarrow> ?q' = filter (\<lambda>x. item_id x \<noteq> item_id item) ?q"
    by (simp add: st removeFromSyncQueue_effect)
  have o: "writesTakeEffect 1 (store st) \<and> distinct (map item_id ?q) \<and> i < length ?q
            \<and> item_id (?q ! i) = item_id item \<longrightarrow> ?q' = take i ?q @ drop (Suc i) ?q"
  proof
    assume h: "writesTakeEffect 1 (store st) \<and> distinct (map item_id ?q) \<and> i < length ?q
            \<and> item_id (?q ! i) = item_id item"
    then have d: "distinct (map item_id ?q)" and l: "i < length ?q"
      and m: "item_id (?q ! i) = item_id item"
      by simp_all
    from h e have "?q' = filter (\<lambda>x. item_id x \<noteq> item_id item) ?q" by blast
    also have "\<dots> = take i ?q @ drop (Suc i) ?q"
      using filter_distinct_nth [OF d l] m by simp
    finally show "?q' = take i ?q @ drop (Suc i) ?q" .
  qed
  from c g e o show ?thesis by blast
qed

text \<open>The claim on the queue of three items, syncing the second one.\<close>

theorem sync_success_removes_exactly_one_witness:
  "fst (processSyncItem True queuedB (server queueDrainState)) = None
   \<and> writesTakeEffect 1 (store queueDrainState)
   \<and> distinct (map item_id (getSyncQueue (store queueDrainState)))
   \<and> getSyncQueue (store queueDrainState) = [queuedA, queuedB, queuedC]
   \<and> getSyncQueue (store (drainItem True queuedB queueDrainState)) = [queuedA, queuedC]
   \<and> successCount (drainItem True queuedB queueDrainState) = 1"
proof -
  have f: "fst (processSyncItem True queuedB (server queueDrainState)) = None"
    by (simp add: processSyncItem_def queuedB_def queueDrainState_def startRemote_def actorCall_def
          run_on_canister_def canister_saveCallerUserProfile_def)
  then have ok: "processSyncItem True queuedB (server queueDrainState)
              = (None, snd (processSyncItem True queuedB (server queueDrainState)))"
    by (simp add: prod_eq_iff)
  have q: "getSyncQueue (store queueDrainState) = [queuedA, queuedB, queuedC]"
    by (simp add: queueDrainState_def queueStore_def getSyncQueue_def getSyncQueue_try_def parseOr_def)
  have nf: "writesTakeEffect 1 (store queueDrainState)"
    by (simp add: queueDrainState_def queueStore_def writesTakeEffect_def)
  have d: "distinct (map item_id (getSyncQueue (store queueDrainState)))"
    by (simp add: q queuedA_def queuedB_def queuedC_def)
  have i: "1 < length (getSyncQueue (store queueDrainState))" by (simp add: q)
  have e: "item_id (getSyncQueue (store queueDrainState) ! 1) = item_id queuedB" by (simp add: q)
  have s0: "successCount queueDrainState = 0" by (simp add: queueDrainState_def)
  from sync_success_removes_exactly_one [OF ok, of 1] nf d i e
  have "getSyncQueue (store (drainItem True queuedB queueDrainState))
          = take 1 (getSyncQueue (store queueDrainState))
            @ drop (Suc 1) (getSyncQueue (store queueDrainState))
        \<and> successCount (drainItem True queuedB queueDrainState)
          = successCount queueDrainState + 1"
    by blast
  with q s0 f nf d show ?thesis by simp
qed

text \<open>
  Without these two conditions the turn does not remove exactly the synced item. On the queue
  of three items with a write that throws, the second item is synced and counted, and stays
  in the stored queue. On the queue of the two items with the same id, the first item is
  synced and the stored queue loses both.
\<close>

theorem sync_success_other_removals:
  "fst (processSyncItem True queuedB (server fullQueueState)) = None
   \<and> getSyncQueue (store fullQueueState) = [queuedA, queuedB, queuedC]
   \<and> getSyncQueue (store (drainItem True queuedB fullQueueState)) = [queuedA, queuedB, queuedC]
   \<and> successCount (drainItem True queuedB fullQueueState) = 1
   \<and> fst (processSyncItem True twinFirst (server twinDrainState)) = None
   \<and> length (getSyncQueue (store twinDrainState)) = 2
   \<and> getSyncQueue (store twinDrainState) ! 0 = twinFirst
   \<and> getSyncQueue (store (drainItem True twinFirst twinDrainState)) = []"
proof -
  have a: "fst (processSyncItem True queuedB (server fullQueueState)) = None"
    by (simp add: processSyncItem_def queuedB_def fullQueueState_def queueDrainState_def
          startRemote_def actorCall_def run_on_canister_def canister_saveCallerUserProfile_def)
  have b: "getSyncQueue (store fullQueueState) = [queuedA, queuedB, queuedC]"
    by (simp add: fullQueueState_def queueDrainState_def queueStore_def getSyncQueue_def
          getSyncQueue_try_def parseOr_def)
  from a obtain r1 where c: "processSyncItem True queuedB (server fullQueueState) = (None, r1)"
    by (cases "processSyncItem True queuedB (server fullQueueState)") simp
  have d: "getSyncQueue (store (drainItem True queuedB fullQueueState)) = [queuedA, queuedB, queuedC]
           \<and> successCount (drainItem True queuedB fullQueueState) = 1"
    by (simp add: drainItem_def c)
       (simp add: fullQueueState_def queueDrainState_def queueStore_def removeFromSyncQueue_def
          Let_def saveSyncQueue_def saveSyncQueue_try_def setItem_def getSyncQueue_def
          getSyncQueue_try_def parseOr_def)
  have e: "fst (processSyncItem True twinFirst (server twinDrainState)) = None"
    by (simp add: processSyncItem_def twinFirst_def newItem_def twinDrainState_def
          startRemote_def actorCall_def run_on_canister_def canister_addOrUpdateHouse_def)
  from e obtain r2 where f: "processSyncItem True twinFirst (server twinDrainState) = (None, r2)"
    by (cases "processSyncItem True twinFirst (server twinDrainState)") simp
  have g: "getSyncQueue (store twinDrainState)
             = [twinFirst, newItem 1700000000000 ''aaaaaaaaa'' update_profile
                             (ProfileData \<lparr> profile_name = ''Ann B'' \<rparr>)]"
    by (simp add: twinDrainState_def twinStore_def twinFirst_def queueStore_def addToSyncQueue_def
          Let_def saveSyncQueue_def saveSyncQueue_try_def setItem_def getSyncQueue_def
          getSyncQueue_try_def parseOr_def)
  have w: "writesTakeEffect (Suc 0) (store twinDrainState)"
    by (simp add: twinDrainState_def twinStore_def queueStore_def addToSyncQueue_def
          Let_def saveSyncQueue_def saveSyncQueue_try_def setItem_def writesTakeEffect_def)
  have h: "getSyncQueue (store (drainItem True twinFirst twinDrainState)) = []"
    by (simp add: drainItem_def f removeFromSyncQueue_effect [OF w] g)
       (simp add: twinFirst_def newItem_def)
  from a b d e g h show ?thesis by simp
qed

text \<open>
  The whole pass, when the ids are pairwise different and the writes take effect: the queue
  after the pass is \<open>keptAfterPass\<close> of the array read before it.
\<close>

lemma removeFromSyncQueue_no_fault:
  assumes "write_faults s = []"
  shows "getSyncQueue (removeFromSyncQueue itemId s)
           = filter (\<lambda>item. item_id item \<noteq> itemId) (getSyncQueue s)"
    and "write_faults (removeFromSyncQueue itemId s) = []"
  using assms
  by (simp_all add: removeFromSyncQueue_def Let_def getSyncQueue_saveSyncQueue write_faults_saveSyncQueue)

lemma incrementRetryCount_no_fault:
  assumes "write_faults s = []"
  shows "getSyncQueue (incrementRetryCount itemId s)
           = map (\<lambda>item. if item_id item = itemId
                          then item\<lparr>retryCount := retryCount item + 1\<rparr> else item) (getSyncQueue s)"
    and "write_faults (incrementRetryCount itemId s) = []"
  using assms
  by (simp_all add: incrementRetryCount_def Let_def getSyncQueue_saveSyncQueue write_faults_saveSyncQueue)

lemma filter_other_ids:
  assumes "item_id item \<notin> item_id ` set xs"
  shows "filter (\<lambda>x. item_id x \<noteq> item_id item) xs = xs"
proof -
  have "\<forall>x\<in>set xs. item_id x \<noteq> item_id item"
  proof
    fix x assume "x \<in> set xs"
    then have "item_id x \<in> item_id ` set xs" by simp
    with assms show "item_id x \<noteq> item_id item" by metis
  qed
  then show ?thesis by (simp add: filter_id_conv)
qed

lemma map_other_ids:
  assumes "item_id item \<notin> item_id ` set xs"
  shows "map (\<lambda>x. if item_id x = item_id item then x\<lparr>retryCount := retryCount x + 1\<rparr> else x) xs = xs"
proof -
  have "\<forall>x\<in>set xs. item_id x \<noteq> item_id item"
  proof
    fix x assume "x \<in> set xs"
    then have "item_id x \<in> item_id ` set xs" by simp
    with assms show "item_id x \<noteq> item_id item" by metis
  qed
  then show ?thesis by (simp add: map_idI)
qed

lemma drainItem_queue:
  assumes nf: "write_faults (store st) = []"
      and q: "getSyncQueue (store st) = done @ item # rest"
      and d: "distinct (map item_id (done @ item # rest))"
  shows "write_faults (store (drainItem a item st)) = []"
    and "server (drainItem a item st) = snd (processSyncItem a item (server st))"
    and "getSyncQueue (store (drainItem a item st))
          = done @ (if fst (processSyncItem a item (server st)) = None \<or> retryCount item \<ge> 3 then []
                    else [item\<lparr>retryCount := retryCount item + 1\<rparr>]) @ rest"
proof -
  from d have n1: "item_id item \<notin> item_id ` set done" and n2: "item_id item \<notin> item_id ` set rest"
    by auto
  have rm: "filter (\<lambda>x. item_id x \<noteq> item_id item) (done @ item # rest) = done @ rest"
    by (simp add: filter_other_ids [OF n1] filter_other_ids [OF n2])
  have bump: "map (\<lambda>x. if item_id x = item_id item then x\<lparr>retryCount := retryCount x + 1\<rparr> else x)
                 (done @ item # rest) = done @ item\<lparr>retryCount := retryCount item + 1\<rparr> # rest"
    by (simp add: map_other_ids [OF n1] map_other_ids [OF n2])
  have rm2: "filter (\<lambda>x. item_id x \<noteq> item_id item)
                 (done @ item\<lparr>retryCount := retryCount item + 1\<rparr> # rest) = done @ rest"
    by (simp add: filter_other_ids [OF n1] filter_other_ids [OF n2])
  let ?s1 = "incrementRetryCount (item_id item) (store st)"
  have s1: "getSyncQueue ?s1 = done @ item\<lparr>retryCount := retryCount item + 1\<rparr> # rest"
    and s1f: "write_faults ?s1 = []"
    using incrementRetryCount_no_fault [OF nf, of "item_id item"] q bump by simp_all
  obtain e r' where p: "processSyncItem a item (server st) = (e, r')" by (cases "processSyncItem a item (server st)")
  show "write_faults (store (drainItem a item st)) = []"
    using p nf s1f removeFromSyncQueue_no_fault(2)
    by (cases e) (simp_all add: drainItem_def Let_def)
  show "server (drainItem a item st) = snd (processSyncItem a item (server st))"
    using p by (cases e) (simp_all add: drainItem_def Let_def)
  show "getSyncQueue (store (drainItem a item st))
          = done @ (if fst (processSyncItem a item (server st)) = None \<or> retryCount item \<ge> 3 then []
                    else [item\<lparr>retryCount := retryCount item + 1\<rparr>]) @ rest"
  proof (cases e)
    case None
    with p have "store (drainItem a item st) = removeFromSyncQueue (item_id item) (store st)"
      by (simp add: drainItem_def)
    with None p q rm removeFromSyncQueue_no_fault(1) [OF nf, of "item_id item"] show ?thesis by simp
  next
    case (Some err)
    show ?thesis
    proof (cases "retryCount item \<ge> 3")
      case True
      with Some p have "store (drainItem a item st) = removeFromSyncQueue (item_id item) ?s1"
        by (simp add: drainItem_def Let_def)
      with True Some p s1 rm2 removeFromSyncQueue_no_fault(1) [OF s1f, of "item_id item"]
      show ?thesis by simp
    next
      case False
      with Some p have "store (drainItem a item st) = ?s1"
        by (simp add: drainItem_def Let_def)
      with False Some p s1 show ?thesis by simp
    qed
  qed
qed

lemma drainLoop_queue:
  assumes "write_faults (store st) = []"
      and "getSyncQueue (store st) = done @ rest"
      and "distinct (map item_id (done @ rest))"
  shows "getSyncQueue (store (drainLoop a rest st))
           = done @ keptAfterPass rest (callOutcomes a rest (server st))"
  using assms
proof (induction rest arbitrary: st "done")
  case Nil
  then show ?case by (simp add: keptAfterPass_def)
next
  case (Cons item rest)
  let ?st' = "drainItem a item st"
  let ?mid = "(if fst (processSyncItem a item (server st)) = None \<or> retryCount item \<ge> 3 then []
               else [item\<lparr>retryCount := retryCount item + 1\<rparr>])"
  from drainItem_queue [OF Cons.prems(1) Cons.prems(2) Cons.prems(3), of a]
  have f: "write_faults (store ?st') = []"
    and sv: "server ?st' = snd (processSyncItem a item (server st))"
    and q': "getSyncQueue (store ?st') = (done @ ?mid) @ rest"
    by simp_all
  from Cons.prems(3) have d': "distinct (map item_id ((done @ ?mid) @ rest))" by auto
  from Cons.IH [OF f q' d']
  have "getSyncQueue (store (drainLoop a rest ?st'))
          = (done @ ?mid) @ keptAfterPass rest (callOutcomes a rest (server ?st'))" .
  moreover have "?mid @ keptAfterPass rest (callOutcomes a rest (server ?st'))
          = keptAfterPass (item # rest) (callOutcomes a (item # rest) (server st))"
    by (cases "processSyncItem a item (server st)") (auto simp: keptAfterPass_def sv)
  ultimately show ?case by simp
qed

lemma processSyncQueue_queue:
  assumes g: "enabled" "hasActor env" "\<not> actorFetching env" "\<not> actorRetrying env" "isOnline env"
             "\<not> syncInProgress refs"
      and ne: "getSyncQueue s \<noteq> []"
      and rl: "2000 \<le> clock env - lastSyncAttempt refs"
      and nf: "write_faults s = []"
      and d: "distinct (map item_id (getSyncQueue s))"
  shows "getSyncQueue (fst (snd (processSyncQueue enabled env endTime (refs, s, r))))
           = keptAfterPass (getSyncQueue s) (callOutcomes True (getSyncQueue s) r)"
proof -
  let ?st0 = "\<lparr> store = s, server = r, successCount = 0, failCount = 0,
                 toasts = [SyncingPending (length (getSyncQueue s))] \<rparr>"
  have "getSyncQueue (store (drainLoop True (getSyncQueue s) ?st0))
          = [] @ keptAfterPass (getSyncQueue s) (callOutcomes True (getSyncQueue s) (server ?st0))"
    by (rule drainLoop_queue) (simp_all add: nf d)
  then have "getSyncQueue (store (drainLoop True (getSyncQueue s) ?st0))
          = keptAfterPass (getSyncQueue s) (callOutcomes True (getSyncQueue s) r)"
    by simp
  then show ?thesis using g ne rl
    by (simp add: processSyncQueue_def Let_def getSyncQueue_setLastSyncTime)
qed

lemmas pass_defs = runPass_def stuckStart_def freshStart_def processSyncQueue_def drainItem_def
  processSyncItem_def actorCall_def run_on_canister_def canister_deleteHouse_def
  incrementRetryCount_def removeFromSyncQueue_def saveSyncQueue_def
  saveSyncQueue_try_def setItem_def getSyncQueue_def getSyncQueue_try_def parseOr_def
  setLastSyncTime_def Let_def onlineEnv_def idleRefs_def stuckStore_def stuckItem_def downRemote_def
  scenarioHouse_def

text \<open>
  Claim C2, evaluated on the code. The queue holds one item with \<open>retryCount = 2\<close> and the remote
  call fails. The pass stores \<open>retryCount = 3\<close> and keeps the item: the test
  \<open>item.retryCount >= 3\<close> reads the element of the array taken before the increment. Only the
  next failing pass removes it, with the notice that says "after 3 attempts".
\<close>

theorem third_failure_keeps_item:
  "getSyncQueue (fst (snd (runPass 1700000010000 stuckStart))) = [stuckItem\<lparr>retryCount := 3\<rparr>]
   \<and> snd (snd (snd (runPass 1700000010000 stuckStart))) = [SyncingPending 1, FailedWillRetry 1]
   \<and> getSyncQueue (fst (snd (runPass 1700000040000 (runPass 1700000010000 stuckStart)))) = []
   \<and> snd (snd (snd (runPass 1700000040000 (runPass 1700000010000 stuckStart))))
        = [SyncingPending 1, FailedAfter3Attempts delete_house, FailedWillRetry 1]"
  by (simp add: pass_defs)

text \<open>After the third failure the queue still has one item, and its \<open>retryCount\<close> is 3.\<close>

theorem third_failure_keeps_item_witness:
  "length (getSyncQueue (fst (snd (runPass 1700000010000 stuckStart)))) = 1
   \<and> retryCount (hd (getSyncQueue (fst (snd (runPass 1700000010000 stuckStart))))) = 3"
  using third_failure_keeps_item by simp

text \<open>
  An item that fails twice and succeeds on the third attempt is removed by the success, with
  \<open>retryCount\<close> having reached 2.
\<close>

lemma scenario_D:
  "getSyncQueue (fst (snd (runPass 1700000010000 freshStart))) = [stuckItem\<lparr>retryCount := 1\<rparr>]
   \<and> getSyncQueue (fst (snd (runPass 1700000040000 (runPass 1700000010000 freshStart))))
        = [stuckItem\<lparr>retryCount := 2\<rparr>]
   \<and> getSyncQueue (fst (snd (runPass 1700000070000
          (runPass 1700000040000 (runPass 1700000010000 freshStart))))) = []
   \<and> snd (snd (snd (runPass 1700000070000
          (runPass 1700000040000 (runPass 1700000010000 freshStart)))))
        = [SyncingPending 1, SyncedChanges 1]"
  by (simp add: pass_defs)

section \<open>Positional addressing of payments\<close>

lemma findIndex_found:
  "\<exists>x\<in>set xs. P x \<Longrightarrow>
     0 \<le> findIndex P xs \<and> nat (findIndex P xs) < length xs \<and> P (xs ! nat (findIndex P xs))"
proof (induction xs)
  case Nil
  then show ?case by simp
next
  case (Cons x xs)
  show ?case
  proof (cases "P x")
    case True
    then show ?thesis by simp
  next
    case False
    with Cons.prems have "\<exists>x\<in>set xs. P x" by simp
    from Cons.IH [OF this] show ?thesis using False
      by (simp add: Let_def nat_add_distrib)
  qed
qed

lemma payment_located:
  assumes d: "distinct (map (\<lambda>p. (date p, amount p)) (filter (\<lambda>p. houseId p = hid) ps))"
      and p: "p \<in> set (filter (\<lambda>p. houseId p = hid) ps)"
  defines "g \<equiv> findIndex (\<lambda>q. houseId q = houseId p \<and> date q = date p \<and> amount q = amount p) ps"
  shows "0 \<le> g \<and> nat g < length ps \<and> ps ! nat g = p"
proof -
  let ?P = "\<lambda>q. houseId q = houseId p \<and> date q = date p \<and> amount q = amount p"
  from p have "\<exists>x\<in>set ps. ?P x" by auto
  from findIndex_found [of ps ?P, OF this]
  have g0: "0 \<le> g" and gl: "nat g < length ps" and m: "?P (ps ! nat g)"
    by (simp_all add: g_def)
  from gl m p have q: "ps ! nat g \<in> set (filter (\<lambda>p. houseId p = hid) ps)" by auto
  from d have "inj_on (\<lambda>p. (date p, amount p)) (set (filter (\<lambda>p. houseId p = hid) ps))"
    by (simp add: distinct_map)
  with p q m have "ps ! nat g = p" by (auto dest: inj_onD)
  with g0 gl show ?thesis by simp
qed

lemma first_match_is_target:
  assumes d: "distinct (map (\<lambda>p. (date p, amount p))
                 (filter (\<lambda>p. houseId p = hid) (getPayments s)))"
      and i: "i < length (getPaymentsByHouse hid s)"
  shows "0 \<le> findIndex (\<lambda>q. houseId q = houseId (getPaymentsByHouse hid s ! i)
                             \<and> date q = date (getPaymentsByHouse hid s ! i)
                             \<and> amount q = amount (getPaymentsByHouse hid s ! i)) (getPayments s)
       \<and> getPayments s ! nat (findIndex (\<lambda>q. houseId q = houseId (getPaymentsByHouse hid s ! i)
                             \<and> date q = date (getPaymentsByHouse hid s ! i)
                             \<and> amount q = amount (getPaymentsByHouse hid s ! i)) (getPayments s))
           = getPaymentsByHouse hid s ! i"
proof -
  from i have "getPaymentsByHouse hid s ! i \<in> set (getPaymentsByHouse hid s)" by (rule nth_mem)
  then have p: "getPaymentsByHouse hid s ! i \<in> set (filter (\<lambda>p. houseId p = hid) (getPayments s))"
    by (simp add: getPaymentsByHouse_def sortByDateDesc_def)
  from payment_located [OF d p] show ?thesis by simp
qed

lemma remove1_nth_distinct:
  "distinct xs \<Longrightarrow> i < length xs \<Longrightarrow> remove1 (xs ! i) xs = take i xs @ drop (Suc i) xs"
proof (induction xs arbitrary: i)
  case Nil
  then show ?case by simp
next
  case (Cons x xs)
  show ?case
  proof (cases i)
    case 0
    then show ?thesis by simp
  next
    case (Suc j)
    with Cons.prems have j: "j < length xs" by simp
    then have "xs ! j \<in> set xs" by simp
    with Cons.prems(1) have "x \<noteq> xs ! j" by auto
    then show ?thesis using Suc Cons.IH [of j] Cons.prems(1) j by simp
  qed
qed

lemma remove1_once:
  "count_list xs p = 1 \<Longrightarrow> i < length xs \<Longrightarrow> xs ! i = p \<Longrightarrow> remove1 p xs = take i xs @ drop (Suc i) xs"
proof (induction xs arbitrary: i)
  case Nil
  then show ?case by simp
next
  case (Cons x xs)
  show ?case
  proof (cases i)
    case 0
    with Cons.prems show ?thesis by simp
  next
    case (Suc j)
    with Cons.prems have j: "j < length xs" and pj: "xs ! j = p" by simp_all
    then have "p \<in> set xs" by auto
    then have "count_list xs p > 0" using count_list_0_iff [of xs p] by auto
    with Cons.prems(1) have xp: "x \<noteq> p" and c: "count_list xs p = 1"
      by (auto split: if_splits)
    from Cons.IH [OF c j pj] xp Suc show ?thesis by simp
  qed
qed

lemma count_list_filter_P: "P p \<Longrightarrow> count_list (filter P xs) p = count_list xs p"
  by (induction xs) auto

lemma distinct_count_one: "distinct xs \<Longrightarrow> p \<in> set xs \<Longrightarrow> count_list xs p = 1"
  by (induction xs) (auto simp: count_list_0_iff)

lemma remove1_insort_key_other:
  "sorted (map k ys) \<Longrightarrow> x \<noteq> p \<Longrightarrow> remove1 p (insort_key k x ys) = insort_key k x (remove1 p ys)"
proof (induction ys)
  case Nil
  then show ?case by simp
next
  case (Cons y ys)
  show ?case
  proof (cases "y = p")
    case True
    show ?thesis
    proof (cases "k x \<le> k y")
      case le: True
      from Cons.prems(1) have "\<forall>z\<in>set ys. k y \<le> k z" by simp
      with le have "\<forall>z\<in>set ys. k x \<le> k z" by auto
      then have "insort_key k x ys = x # ys" by (rule insort_is_Cons)
      with True le Cons.prems(2) show ?thesis by simp
    next
      case False
      with True Cons.prems(2) show ?thesis by simp
    qed
  next
    case False
    with Cons show ?thesis by simp
  qed
qed

lemma sort_key_remove1: "sort_key k (remove1 p xs) = remove1 p (sort_key k xs)"
proof (induction xs)
  case Nil
  then show ?case by simp
next
  case (Cons x xs)
  show ?case
  proof (cases "x = p")
    case True
    then show ?thesis by simp
  next
    case False
    then show ?thesis using Cons.IH
      by (simp add: remove1_insort_key_other)
  qed
qed

lemma filter_remove1_P: "filter P (remove1 p xs) = remove1 p (filter P xs)"
  by (induction xs) auto

lemma getPayments_syncOrQueue: "getPayments (fst (syncOrQueue env ty d call (s, r))) = getPayments s"
  by (simp add: syncOrQueue_def Let_def getPayments_addToSyncQueue split: prod.splits option.splits)

lemma house_payment_once:
  assumes d: "distinct (map (\<lambda>p. (date p, amount p)) (filter (\<lambda>p. houseId p = hid) ps))"
      and p: "p \<in> set (filter (\<lambda>p. houseId p = hid) ps)"
  shows "count_list ps p = 1"
proof -
  from d have "distinct (filter (\<lambda>p. houseId p = hid) ps)" by (simp add: distinct_map)
  from distinct_count_one [OF this p] have "count_list (filter (\<lambda>p. houseId p = hid) ps) p = 1" .
  moreover from p have "houseId p = hid" by simp
  ultimately show ?thesis by (simp add: count_list_filter_P)
qed

lemma delete_in_range:
  assumes d: "distinct (map (\<lambda>p. (date p, amount p)) (filter (\<lambda>p. houseId p = hid) (getPayments s)))"
      and i: "i < length (getPaymentsByHouse hid s)"
  shows "useDeletePayment env i hid (s, r)
           = syncOrQueue env delete_payment (DeletePaymentData i hid)
              (Some (canister_deletePayment i))
               (savePayments (remove1 (getPaymentsByHouse hid s ! i) (getPayments s)) s, r)"
proof -
  let ?ps = "getPayments s"
  let ?hp = "sortByDateDesc (filter (\<lambda>p. houseId p = hid) ?ps)"
  let ?p = "?hp ! i"
  let ?g = "findIndex (\<lambda>q. houseId q = houseId ?p \<and> date q = date ?p \<and> amount q = amount ?p) ?ps"
  have hp: "getPaymentsByHouse hid s = ?hp" by (simp add: getPaymentsByHouse_def)
  from i hp have i': "i < length ?hp" by simp
  then have "?p \<in> set ?hp" by (rule nth_mem)
  then have p: "?p \<in> set (filter (\<lambda>p. houseId p = hid) ?ps)" by (simp add: sortByDateDesc_def)
  from payment_located [OF d p] have g: "0 \<le> ?g" "nat ?g < length ?ps" "?ps ! nat ?g = ?p"
    by simp_all
  from house_payment_once [OF d p] have "count_list ?ps ?p = 1" .
  from remove1_once [OF this g(2) g(3)] have "spliceOne (nat ?g) ?ps = remove1 ?p ?ps"
    by (simp add: spliceOne_def)
  with g(1) i' show ?thesis
    by (simp add: useDeletePayment_def Let_def hp)
qed

lemma edit_in_range:
  assumes d: "distinct (map (\<lambda>p. (date p, amount p)) (filter (\<lambda>p. houseId p = hid) (getPayments s)))"
      and i: "i < length (getPaymentsByHouse hid s)"
  shows "\<exists>g<length (getPayments s). getPayments s ! g = getPaymentsByHouse hid s ! i
          \<and> useEditPayment env i amt nt hid method dt (s, r)
           = syncOrQueue env edit_payment (EditPaymentData i amt nt hid method dt)
               (map_option (canister_editPayment i amt nt hid method) (bigIntOfProduct dt 1000000))
               (savePayments ((getPayments s)[g :=
                   \<lparr> amount = amt, date = dt, payment_note = nt, houseId = hid,
                     paymentMethod = method \<rparr>]) s, r)"
proof -
  let ?ps = "getPayments s"
  let ?hp = "sortByDateDesc (filter (\<lambda>p. houseId p = hid) ?ps)"
  let ?p = "?hp ! i"
  let ?g = "findIndex (\<lambda>q. houseId q = houseId ?p \<and> date q = date ?p \<and> amount q = amount ?p) ?ps"
  have hp: "getPaymentsByHouse hid s = ?hp" by (simp add: getPaymentsByHouse_def)
  from i hp have i': "i < length ?hp" by simp
  then have "?p \<in> set ?hp" by (rule nth_mem)
  then have p: "?p \<in> set (filter (\<lambda>p. houseId p = hid) ?ps)" by (simp add: sortByDateDesc_def)
  from payment_located [OF d p] have g: "0 \<le> ?g" "nat ?g < length ?ps" "?ps ! nat ?g = ?p"
    by simp_all
  have "useEditPayment env i amt nt hid method dt (s, r)
           = syncOrQueue env edit_payment (EditPaymentData i amt nt hid method dt)
               (map_option (canister_editPayment i amt nt hid method) (bigIntOfProduct dt 1000000))
               (savePayments (?ps[nat ?g :=
                   \<lparr> amount = amt, date = dt, payment_note = nt, houseId = hid,
                     paymentMethod = method \<rparr>]) s, r)"
    using g(1) i' by (simp add: useEditPayment_def Let_def)
  with g(2,3) hp show ?thesis by auto
qed

lemma house_view_after_delete:
  assumes d: "distinct (map (\<lambda>p. (date p, amount p)) (filter (\<lambda>p. houseId p = hid) ps))"
      and i: "i < length (sortByDateDesc (filter (\<lambda>p. houseId p = hid) ps))"
  shows "sortByDateDesc (filter (\<lambda>p. houseId p = hid)
            (remove1 (sortByDateDesc (filter (\<lambda>p. houseId p = hid) ps) ! i) ps))
         = take i (sortByDateDesc (filter (\<lambda>p. houseId p = hid) ps))
           @ drop (Suc i) (sortByDateDesc (filter (\<lambda>p. houseId p = hid) ps))"
proof -
  let ?f = "filter (\<lambda>p. houseId p = hid) ps"
  let ?hp = "sortByDateDesc ?f"
  from d have "distinct ?f" by (simp add: distinct_map)
  then have dh: "distinct ?hp" by (simp add: sortByDateDesc_def)
  have "sortByDateDesc (filter (\<lambda>p. houseId p = hid) (remove1 (?hp ! i) ps))
          = remove1 (?hp ! i) ?hp"
    by (simp add: sortByDateDesc_def filter_remove1_P sort_key_remove1)
  also have "\<dots> = take i ?hp @ drop (Suc i) ?hp"
    by (rule remove1_nth_distinct [OF dh i])
  finally show ?thesis .
qed

lemma syncOrQueue_queued:
  "\<not> isOnline env \<or> \<not> hasActor env \<or> actorFetching env \<or> actorRetrying env \<Longrightarrow>
     fst (syncOrQueue env ty d call (s, r)) = addToSyncQueue (clock env) (random36 env) ty d s
     \<and> fst (snd (syncOrQueue env ty d call (s, r))) = r"
  by (auto simp: syncOrQueue_def Let_def)

lemma syncOrQueue_sent:
  "isOnline env \<and> hasActor env \<and> \<not> actorFetching env \<and> \<not> actorRetrying env \<Longrightarrow>
     fst (snd (syncOrQueue env ty d call (s, r))) = snd (tryCall call r)"
  by (auto simp: syncOrQueue_def Let_def split: prod.splits option.splits)

text \<open>
  Claim C10, as the code has it. Let the payments of a house have pairwise different
  (date, amount) pairs. For an index \<open>i\<close> inside the house's list sorted by descending date,
  the first match on (houseId, date, amount) in the stored list is the payment at position
  \<open>i\<close> of the sorted list, and that payment occurs once in the stored list. The local delete
  writes the stored list without it and the local edit writes the stored list with the new
  payment at its position. A write that throws is caught and leaves the stored list as it
  was; when the write takes effect, the stored list is the written one, so that after a
  delete the house's sorted list has lost exactly position \<open>i\<close>. For an index outside the
  sorted list both operations leave the stored payments as they are. In every case the
  operation is then queued (offline, or while the actor is not ready) or sent to the
  canister, the edit with its date converted by \<open>BigInt(paymentDate * 1000000)\<close>.
\<close>

theorem local_edit_delete_by_position:
  assumes d: "distinct (map (\<lambda>p. (date p, amount p))
                 (filter (\<lambda>p. houseId p = hid) (getPayments s)))"
  shows
    "(i < length (getPaymentsByHouse hid s) \<longrightarrow>
        count_list (getPayments s) (getPaymentsByHouse hid s ! i) = 1
      \<and> 0 \<le> findIndex (\<lambda>q. houseId q = houseId (getPaymentsByHouse hid s ! i)
                               \<and> date q = date (getPaymentsByHouse hid s ! i)
                               \<and> amount q = amount (getPaymentsByHouse hid s ! i)) (getPayments s)
      \<and> getPayments s ! nat (findIndex (\<lambda>q. houseId q = houseId (getPaymentsByHouse hid s ! i)
                               \<and> date q = date (getPaymentsByHouse hid s ! i)
                               \<and> amount q = amount (getPaymentsByHouse hid s ! i)) (getPayments s))
          = getPaymentsByHouse hid s ! i
      \<and> useDeletePayment env i hid (s, r)
          = syncOrQueue env delete_payment (DeletePaymentData i hid)
              (Some (canister_deletePayment i))
              (savePayments (remove1 (getPaymentsByHouse hid s ! i) (getPayments s)) s, r)
      \<and> (getPayments (fst (useDeletePayment env i hid (s, r)))
              = remove1 (getPaymentsByHouse hid s ! i) (getPayments s)
          \<or> getPayments (fst (useDeletePayment env i hid (s, r))) = getPayments s)
      \<and> (writesTakeEffect 1 s \<longrightarrow>
            getPayments (fst (useDeletePayment env i hid (s, r)))
              = remove1 (getPaymentsByHouse hid s ! i) (getPayments s)
          \<and> getPaymentsByHouse hid (fst (useDeletePayment env i hid (s, r)))
              = take i (getPaymentsByHouse hid s) @ drop (Suc i) (getPaymentsByHouse hid s))
      \<and> (\<exists>g<length (getPayments s). getPayments s ! g = getPaymentsByHouse hid s ! i
            \<and> useEditPayment env i amt nt hid method dt (s, r)
                = syncOrQueue env edit_payment (EditPaymentData i amt nt hid method dt)
                    (map_option (canister_editPayment i amt nt hid method) (bigIntOfProduct dt 1000000))
                    (savePayments ((getPayments s)[g :=
                        \<lparr> amount = amt, date = dt, payment_note = nt, houseId = hid,
                          paymentMethod = method \<rparr>]) s, r)
            \<and> (getPayments (fst (useEditPayment env i amt nt hid method dt (s, r)))
                    = (getPayments s)[g :=
                        \<lparr> amount = amt, date = dt, payment_note = nt, houseId = hid,
                          paymentMethod = method \<rparr>]
                \<or> getPayments (fst (useEditPayment env i amt nt hid method dt (s, r)))
                    = getPayments s)
            \<and> (writesTakeEffect 1 s \<longrightarrow>
                  getPayments (fst (useEditPayment env i amt nt hid method dt (s, r)))
                    = (getPayments s)[g :=
                        \<lparr> amount = amt, date = dt, payment_note = nt, houseId = hid,
                          paymentMethod = method \<rparr>])))
   \<and> (length (getPaymentsByHouse hid s) \<le> i \<longrightarrow>
        useDeletePayment env i hid (s, r)
          = syncOrQueue env delete_payment (DeletePaymentData i hid)
              (Some (canister_deletePayment i)) (s, r)
      \<and> useEditPayment env i amt nt hid method dt (s, r)
          = syncOrQueue env edit_payment (EditPaymentData i amt nt hid method dt)
              (map_option (canister_editPayment i amt nt hid method) (bigIntOfProduct dt 1000000))
              (s, r)
      \<and> getPayments (fst (useDeletePayment env i hid (s, r))) = getPayments s
      \<and> getPayments (fst (useEditPayment env i amt nt hid method dt (s, r))) = getPayments s
      \<and> (\<not> isOnline env \<or> \<not> hasActor env \<or> actorFetching env \<or> actorRetrying env \<longrightarrow>
            fst (useDeletePayment env i hid (s, r))
              = addToSyncQueue (clock env) (random36 env) delete_payment (DeletePaymentData i hid) s
          \<and> fst (useEditPayment env i amt nt hid method dt (s, r))
              = addToSyncQueue (clock env) (random36 env) edit_payment
                  (EditPaymentData i amt nt hid method dt) s)
      \<and> (isOnline env \<and> hasActor env \<and> \<not> actorFetching env \<and> \<not> actorRetrying env \<longrightarrow>
            fst (snd (useDeletePayment env i hid (s, r)))
              = snd (actorCall (canister_deletePayment i) r)
          \<and> fst (snd (useEditPayment env i amt nt hid method dt (s, r)))
              = snd (tryCall (map_option (canister_editPayment i amt nt hid method)
                                (bigIntOfProduct dt 1000000)) r)))"
proof (intro conjI impI)
  assume i: "i < length (getPaymentsByHouse hid s)"
  let ?hp = "getPaymentsByHouse hid s"
  have hp: "?hp = sortByDateDesc (filter (\<lambda>p. houseId p = hid) (getPayments s))"
    by (simp add: getPaymentsByHouse_def)
  from i have "?hp ! i \<in> set ?hp" by (rule nth_mem)
  then have p: "?hp ! i \<in> set (filter (\<lambda>p. houseId p = hid) (getPayments s))"
    by (simp add: hp sortByDateDesc_def)
  show "count_list (getPayments s) (?hp ! i) = 1"
    by (rule house_payment_once [OF d p])
  show "0 \<le> findIndex (\<lambda>q. houseId q = houseId (?hp ! i) \<and> date q = date (?hp ! i)
                               \<and> amount q = amount (?hp ! i)) (getPayments s)"
    using first_match_is_target [OF d i] by (rule conjunct1)
  show "getPayments s ! nat (findIndex (\<lambda>q. houseId q = houseId (?hp ! i) \<and> date q = date (?hp ! i)
                               \<and> amount q = amount (?hp ! i)) (getPayments s)) = ?hp ! i"
    using first_match_is_target [OF d i] by (rule conjunct2)
  show del: "useDeletePayment env i hid (s, r)
          = syncOrQueue env delete_payment (DeletePaymentData i hid)
              (Some (canister_deletePayment i))
              (savePayments (remove1 (?hp ! i) (getPayments s)) s, r)"
    by (rule delete_in_range [OF d i])
  from edit_in_range [OF d i, of env amt nt "method" dt r]
  obtain g where g: "g < length (getPayments s)" "getPayments s ! g = ?hp ! i"
    and ed: "useEditPayment env i amt nt hid method dt (s, r)
                = syncOrQueue env edit_payment (EditPaymentData i amt nt hid method dt)
                    (map_option (canister_editPayment i amt nt hid method) (bigIntOfProduct dt 1000000))
                    (savePayments ((getPayments s)[g :=
                        \<lparr> amount = amt, date = dt, payment_note = nt, houseId = hid,
                          paymentMethod = method \<rparr>]) s, r)"
    by blast
  have "writesTakeEffect 1 s \<longrightarrow>
          getPayments (fst (useEditPayment env i amt nt hid method dt (s, r)))
            = (getPayments s)[g := \<lparr> amount = amt, date = dt, payment_note = nt, houseId = hid,
                                     paymentMethod = method \<rparr>]"
    by (simp add: ed getPayments_syncOrQueue getPayments_savePayments_effect)
  moreover have "getPayments (fst (useEditPayment env i amt nt hid method dt (s, r)))
            = (getPayments s)[g := \<lparr> amount = amt, date = dt, payment_note = nt, houseId = hid,
                                     paymentMethod = method \<rparr>]
          \<or> getPayments (fst (useEditPayment env i amt nt hid method dt (s, r))) = getPayments s"
    using getPayments_savePayments_cases
            [of "(getPayments s)[g := \<lparr> amount = amt, date = dt, payment_note = nt,
                                          houseId = hid, paymentMethod = method \<rparr>]" s]
    by (simp add: ed getPayments_syncOrQueue)
  ultimately show "\<exists>g<length (getPayments s). getPayments s ! g = ?hp ! i
            \<and> useEditPayment env i amt nt hid method dt (s, r)
                = syncOrQueue env edit_payment (EditPaymentData i amt nt hid method dt)
                    (map_option (canister_editPayment i amt nt hid method) (bigIntOfProduct dt 1000000))
                    (savePayments ((getPayments s)[g :=
                        \<lparr> amount = amt, date = dt, payment_note = nt, houseId = hid,
                          paymentMethod = method \<rparr>]) s, r)
            \<and> (getPayments (fst (useEditPayment env i amt nt hid method dt (s, r)))
                    = (getPayments s)[g :=
                        \<lparr> amount = amt, date = dt, payment_note = nt, houseId = hid,
                          paymentMethod = method \<rparr>]
                \<or> getPayments (fst (useEditPayment env i amt nt hid method dt (s, r)))
                    = getPayments s)
            \<and> (writesTakeEffect 1 s \<longrightarrow>
                  getPayments (fst (useEditPayment env i amt nt hid method dt (s, r)))
                    = (getPayments s)[g :=
                        \<lparr> amount = amt, date = dt, payment_note = nt, houseId = hid,
                          paymentMethod = method \<rparr>])"
    using g ed by blast
  show "getPayments (fst (useDeletePayment env i hid (s, r)))
              = remove1 (?hp ! i) (getPayments s)
          \<or> getPayments (fst (useDeletePayment env i hid (s, r))) = getPayments s"
    using getPayments_savePayments_cases [of "remove1 (?hp ! i) (getPayments s)" s]
    by (simp add: del getPayments_syncOrQueue)
  assume "writesTakeEffect 1 s"
  then have nf: "writesTakeEffect (Suc 0) s" by simp
  show gp: "getPayments (fst (useDeletePayment env i hid (s, r)))
              = remove1 (?hp ! i) (getPayments s)"
    by (simp add: del getPayments_syncOrQueue getPayments_savePayments_effect [OF nf])
  from i have i': "i < length (sortByDateDesc (filter (\<lambda>p. houseId p = hid) (getPayments s)))"
    by (simp add: hp)
  show "getPaymentsByHouse hid (fst (useDeletePayment env i hid (s, r)))
              = take i ?hp @ drop (Suc i) ?hp"
    using house_view_after_delete [OF d i']
    by (simp add: getPaymentsByHouse_def gp)
next
  assume o: "length (getPaymentsByHouse hid s) \<le> i"
  then have o': "\<not> i < length (sortByDateDesc (filter (\<lambda>p. houseId p = hid) (getPayments s)))"
    by (simp add: getPaymentsByHouse_def)
  show del: "useDeletePayment env i hid (s, r)
          = syncOrQueue env delete_payment (DeletePaymentData i hid)
              (Some (canister_deletePayment i)) (s, r)"
    using o' by (simp add: useDeletePayment_def Let_def)
  show ed: "useEditPayment env i amt nt hid method dt (s, r)
          = syncOrQueue env edit_payment (EditPaymentData i amt nt hid method dt)
              (map_option (canister_editPayment i amt nt hid method) (bigIntOfProduct dt 1000000))
              (s, r)"
    using o' by (simp add: useEditPayment_def Let_def)
  show "getPayments (fst (useDeletePayment env i hid (s, r))) = getPayments s"
    by (simp add: del getPayments_syncOrQueue)
  show "getPayments (fst (useEditPayment env i amt nt hid method dt (s, r))) = getPayments s"
    by (simp add: ed getPayments_syncOrQueue)
  {
    assume q: "\<not> isOnline env \<or> \<not> hasActor env \<or> actorFetching env \<or> actorRetrying env"
    show "fst (useDeletePayment env i hid (s, r))
              = addToSyncQueue (clock env) (random36 env) delete_payment (DeletePaymentData i hid) s"
      using syncOrQueue_queued [OF q] by (simp add: del)
    show "fst (useEditPayment env i amt nt hid method dt (s, r))
              = addToSyncQueue (clock env) (random36 env) edit_payment
                  (EditPaymentData i amt nt hid method dt) s"
      using syncOrQueue_queued [OF q] by (simp add: ed)
  }
  {
    assume q: "isOnline env \<and> hasActor env \<and> \<not> actorFetching env \<and> \<not> actorRetrying env"
    show "fst (snd (useDeletePayment env i hid (s, r)))
              = snd (actorCall (canister_deletePayment i) r)"
      using syncOrQueue_sent [OF q] by (simp add: del tryCall_Some)
    show "fst (snd (useEditPayment env i amt nt hid method dt (s, r)))
              = snd (tryCall (map_option (canister_editPayment i amt nt hid method)
                                (bigIntOfProduct dt 1000000)) r)"
      using syncOrQueue_sent [OF q] by (simp add: ed)
  }
qed

text \<open>The claim on \<open>ledgerStore\<close>: deleting index 0 of \<open>h1\<close> removes the payment dated 2000.\<close>

theorem local_edit_delete_by_position_witness:
  "writesTakeEffect 1 ledgerStore
   \<and> distinct (map (\<lambda>p. (date p, amount p)) (filter (\<lambda>p. houseId p = ''h1'') (getPayments ledgerStore)))
   \<and> getPaymentsByHouse ''h1'' ledgerStore = [payB, payA]
   \<and> getPayments (fst (useDeletePayment offlineEnv 0 ''h1'' (ledgerStore, startRemote))) = [payA, payC]
   \<and> getPaymentsByHouse ''h1'' (fst (useDeletePayment offlineEnv 0 ''h1'' (ledgerStore, startRemote))) = [payA]"
proof -
  have d: "distinct (map (\<lambda>p. (date p, amount p)) (filter (\<lambda>p. houseId p = ''h1'') (getPayments ledgerStore)))"
    by (simp add: ledger_defs)
  have hp: "getPaymentsByHouse ''h1'' ledgerStore = [payB, payA]"
    by (simp add: ledger_defs)
  have ps: "getPayments ledgerStore = [payA, payC, payB]"
    by (simp add: ledgerStore_def getPayments_def getPayments_try_def parseOr_def)
  have nf: "writesTakeEffect 1 ledgerStore" by (simp add: ledgerStore_def writesTakeEffect_def)
  have ne: "payA \<noteq> payB" by (simp add: payA_def payB_def)
  have ne2: "payC \<noteq> payB" by (simp add: payC_def payB_def)
  have i: "0 < length (getPaymentsByHouse ''h1'' ledgerStore)" by (simp add: hp)
  from local_edit_delete_by_position [OF d, of 0 offlineEnv startRemote] i nf
  have "getPayments (fst (useDeletePayment offlineEnv 0 ''h1'' (ledgerStore, startRemote)))
          = remove1 (getPaymentsByHouse ''h1'' ledgerStore ! 0) (getPayments ledgerStore)
        \<and> getPaymentsByHouse ''h1'' (fst (useDeletePayment offlineEnv 0 ''h1'' (ledgerStore, startRemote)))
          = take 0 (getPaymentsByHouse ''h1'' ledgerStore) @ drop (Suc 0) (getPaymentsByHouse ''h1'' ledgerStore)"
    by blast
  then show ?thesis using nf d hp ps ne ne2 by simp
qed

text \<open>
  When the write throws, nothing is modified and the operation is queued all the same: on
  \<open>fullLedger\<close>, deleting or editing index 0 of \<open>h1\<close> offline leaves the three stored payments
  as they are and appends one item to the queue.
\<close>

theorem local_edit_delete_write_throws:
  "distinct (map (\<lambda>p. (date p, amount p)) (filter (\<lambda>p. houseId p = ''h1'') (getPayments fullLedger)))
   \<and> getPaymentsByHouse ''h1'' fullLedger = [payB, payA]
   \<and> getPayments fullLedger = [payA, payC, payB]
   \<and> getPayments (fst (useDeletePayment offlineEnv 0 ''h1'' (fullLedger, startRemote)))
       = [payA, payC, payB]
   \<and> map type (getSyncQueue (fst (useDeletePayment offlineEnv 0 ''h1'' (fullLedger, startRemote))))
       = [delete_payment]
   \<and> getPayments (fst (useEditPayment offlineEnv 0 30 ''more'' ''h1'' ''bank'' 2000
                          (fullLedger, startRemote)))
       = [payA, payC, payB]
   \<and> map type (getSyncQueue (fst (useEditPayment offlineEnv 0 30 ''more'' ''h1'' ''bank'' 2000
                                    (fullLedger, startRemote))))
       = [edit_payment]"
  by (simp add: fullLedger_def ledger_defs offlineEnv_def useDeletePayment_def useEditPayment_def
        syncOrQueue_def Let_def spliceOne_def savePayments_def savePayments_try_def setItem_def
        addToSyncQueue_def newItem_def saveSyncQueue_def saveSyncQueue_try_def getSyncQueue_def
        getSyncQueue_try_def)


text \<open>
  The canister resolves the index of \<open>deletePayment\<close> in the caller's whole payment list, in
  the order of insertion.
\<close>

lemma canister_deletePayment_position:
  assumes "perm" and "i < length (payments a)" and "houses a (houseId (payments a ! i)) \<noteq> None"
  shows "canister_deletePayment i perm a
           = Inr (a\<lparr>payments := take i (payments a) @ drop (Suc i) (payments a)\<rparr>)"
proof -
  have "tabulate (length (payments a) - 1)
          (\<lambda>j. if j < i then payments a ! j else payments a ! (j + 1))
        = take i (payments a) @ drop (Suc i) (payments a)"
    using assms(2) by (auto intro!: nth_equalityI simp: tabulate_def nth_append min_def)
  with assms show ?thesis
    by (auto simp: canister_deletePayment_def Let_def)
qed

lemmas run_defs = pairOf_def onlineEnv_def emptyStore_def startRemote_def scenarioHouse_def
  useAddPayment_def useDeletePayment_def syncOrQueue_def actorCall_def run_on_canister_def
  canister_addPayment_def canister_deletePayment_def tabulate_def spliceOne_def
  tryCall_def bigIntOfProduct_exact getPayments_def getPayments_try_def parseOr_def savePayments_def savePayments_try_def setItem_def
  sortByDateDesc_def getPaymentsByHouse_def Let_def

lemma afterTwoPayments_eval:
  "getPayments (fst afterTwoPayments) =
     [\<lparr> amount = 10, date = 1000, payment_note = ''first'', houseId = ''h1'', paymentMethod = ''bank'' \<rparr>,
      \<lparr> amount = 20, date = 2000, payment_note = ''second'', houseId = ''h1'', paymentMethod = ''bank'' \<rparr>]
   \<and> payments (account (snd afterTwoPayments)) =
     [\<lparr> amount = 10, date = 1000000000, payment_note = ''first'', houseId = ''h1'', paymentMethod = ''bank'' \<rparr>,
      \<lparr> amount = 20, date = 2000000000, payment_note = ''second'', houseId = ''h1'', paymentMethod = ''bank'' \<rparr>]"
  by (simp add: afterTwoPayments_def run_defs)

text \<open>
  Claim C1, evaluated on the code. After the two payments of \<open>afterTwoPayments\<close>, index 0 of the
  house's list sorted by descending date is the payment of amount 20. \<open>useDeletePayment\<close>
  with index 0, online, removes that payment locally, while the canister's
  \<open>deletePayment(0)\<close> removes the payment of amount 10: the local list keeps the payment of
  amount 10 and the remote list the payment of amount 20.
\<close>

theorem delete_index_targets_differ:
  "getPaymentsByHouse ''h1'' (fst afterTwoPayments) ! 0 =
      \<lparr> amount = 20, date = 2000, payment_note = ''second'', houseId = ''h1'', paymentMethod = ''bank'' \<rparr>
   \<and> getPayments (fst (useDeletePayment onlineEnv 0 ''h1'' afterTwoPayments)) =
     [\<lparr> amount = 10, date = 1000, payment_note = ''first'', houseId = ''h1'', paymentMethod = ''bank'' \<rparr>]
   \<and> payments (account (fst (snd (useDeletePayment onlineEnv 0 ''h1'' afterTwoPayments)))) =
     [\<lparr> amount = 20, date = 2000000000, payment_note = ''second'', houseId = ''h1'', paymentMethod = ''bank'' \<rparr>]
   \<and> snd (snd (useDeletePayment onlineEnv 0 ''h1'' afterTwoPayments)) = Returned None"
  by (simp add: afterTwoPayments_def run_defs)

text \<open>The amounts left on the two sides after the delete.\<close>

theorem delete_index_targets_differ_witness:
  "houseId (getPaymentsByHouse ''h1'' (fst afterTwoPayments) ! 0) = ''h1''
   \<and> amount (getPaymentsByHouse ''h1'' (fst afterTwoPayments) ! 0) = 20
   \<and> map amount (getPayments (fst (useDeletePayment onlineEnv 0 ''h1'' afterTwoPayments))) = [10]
   \<and> map amount (payments (account (fst (snd (useDeletePayment onlineEnv 0 ''h1'' afterTwoPayments))))) = [20]"
  using delete_index_targets_differ by simp

section \<open>Properties of the retry monitor\<close>














end
